theory Spec2Isabelle
  imports Main "HOL-Library.AList"
begin

section \<open>YuiBot: the per-guild playback engine and the media resolver\<close>

text \<open>
  A shallow embedding of \<^verbatim>\<open>src/cogs/music.py\<close> (GuildState, MusicCog, the Stop button of
  MusicControlView) and of \<^verbatim>\<open>YTDLSource.create_source\<close> in \<^verbatim>\<open>src/core/audio_loader.py\<close>.

  Every coroutine is modelled as one atomic step of the event loop on an explicit
  \<open>world\<close>: the cog's registry \<^verbatim>\<open>guild_states\<close>, the voice client of every guild
  (\<^verbatim>\<open>guild.voice_client\<close>), the guilds the bot knows (\<^verbatim>\<open>bot.get_guild\<close>), the asyncio
  tasks created for the inactivity timer, and the error log. The audio player's thread
  appears as two steps, the end of the player and the run of the \<^verbatim>\<open>play_next\<close> that its
  callback scheduled, and other steps may come between the two. Interleavings at an
  \<^verbatim>\<open>await\<close> inside one handler are outside this model.
  What is rendered to the chat (embeds, reply texts) is kept as a structured reply value;
  the "Now Playing" embed of \<^verbatim>\<open>play_next\<close>, whose failure is caught and logged, has no
  effect on the state and is left out.
\<close>

subsection \<open>Values of the extractor, tracks\<close>

text \<open>
  The dictionaries returned by \<^verbatim>\<open>yt_dlp.YoutubeDL.extract_info\<close>: JSON-like values. A Python
  dict is an association list (\<open>map_of\<close> reads it, \<open>AList.update\<close> assigns a key in place
  or appends it, as a Python dict does). \<open>JNone\<close> is Python's \<^verbatim>\<open>None\<close>.
\<close>

datatype jv =
    JNone
  | JBool bool
  | JInt int
  | JStr string
  | JUser nat
  | JList "jv list"
  | JDict "(string \<times> jv) list"

type_synonym jdict = "(string \<times> jv) list"

text \<open>Python truthiness, as used by \<^verbatim>\<open>a or b\<close> and \<^verbatim>\<open>if not x\<close>.\<close>

fun truthy :: "jv \<Rightarrow> bool" where
  "truthy JNone = False"
| "truthy (JBool b) = b"
| "truthy (JInt i) = (i \<noteq> 0)"
| "truthy (JStr s) = (s \<noteq> [])"
| "truthy (JUser u) = True"
| "truthy (JList xs) = (xs \<noteq> [])"
| "truthy (JDict kvs) = (kvs \<noteq> [])"

definition py_or :: "jv \<Rightarrow> jv \<Rightarrow> jv" where
  "py_or a b = (if truthy a then a else b)"

text \<open>\<^verbatim>\<open>d.get(k)\<close>: the value, or \<^verbatim>\<open>None\<close> for a missing key.\<close>

definition dict_get :: "jdict \<Rightarrow> string \<Rightarrow> jv" where
  "dict_get d k = (case map_of d k of None \<Rightarrow> JNone | Some v \<Rightarrow> v)"

text \<open>\<^verbatim>\<open>k in d\<close>.\<close>

definition dict_has :: "jdict \<Rightarrow> string \<Rightarrow> bool" where
  "dict_has d k = (map_of d k \<noteq> None)"

text \<open>The attributes set by \<^verbatim>\<open>YTDLSource.__init__\<close> (audio_loader.py, lines 43-51).\<close>

record track =
  data :: jdict
  title :: jv
  url :: jv
  stream_url :: jv
  duration :: jv
  thumbnail :: jv
  requester :: jv

definition YTDLSource :: "jdict \<Rightarrow> track" where
  "YTDLSource d =
     \<lparr> data = d,
       title = dict_get d ''title'',
       url = py_or (dict_get d ''webpage_url'') (dict_get d ''url''),
       stream_url = dict_get d ''url'',
       duration = dict_get d ''duration'',
       thumbnail = dict_get d ''thumbnail'',
       requester = dict_get d ''requester'' \<rparr>"

subsection \<open>Errors\<close>

text \<open>
  The four \<^verbatim>\<open>ValueError\<close> messages of \<^verbatim>\<open>create_source\<close>, each carrying the search string;
  the other exceptions the modelled code can raise.
\<close>

datatype reason =
    NothingMatching string
  | NoValidUrl string
  | CouldNotProcess string
  | NoStreamUrl string

datatype error =
    ValueError reason
  | IndexError
  | KeyError
  | TypeError
  | AttributeError
  | ClientException
  | ExtractorError string

subsection \<open>The resolver: \<^verbatim>\<open>YTDLSource.create_source\<close>\<close>

text \<open>
  \<^verbatim>\<open>ytdl.extract_info(query, download=False, process=p)\<close> is the external collaborator; it
  is a parameter \<open>ytdl query p\<close> that returns a dict, \<^verbatim>\<open>None\<close>, or raises.
\<close>

type_synonym extractor = "string \<Rightarrow> bool \<Rightarrow> error + jdict option"

text \<open>A URL handed to the second \<^verbatim>\<open>extract_info\<close> call: the text of a string value.\<close>

fun as_query :: "jv \<Rightarrow> error + string" where
  "as_query (JStr s) = Inr s"
| "as_query _ = Inl TypeError"

text \<open>Lines 110-111: \<^verbatim>\<open>processed_data['entries'][0]\<close>, which must itself be a dict for line 114.\<close>

fun first_processed :: "jv \<Rightarrow> error + jdict" where
  "first_processed (JList []) = Inl IndexError"
| "first_processed (JList (JDict d # _)) = Inr d"
| "first_processed (JList (_ # _)) = Inl TypeError"
| "first_processed (JStr []) = Inl IndexError"
| "first_processed (JDict _) = Inl KeyError"
| "first_processed _ = Inl TypeError"

text \<open>Lines 113-125: store the requester, require a stream URL, build the source.\<close>

definition finish_source :: "string \<Rightarrow> nat \<Rightarrow> jdict \<Rightarrow> error + track" where
  "finish_source search req processed_data =
     (let pd = AList.update ''requester'' (JUser req) processed_data;
          stream = dict_get pd ''url''
      in if \<not> truthy stream then Inl (ValueError (NoStreamUrl search))
         else Inr (YTDLSource pd))"

text \<open>Lines 97-125: step 2, from the chosen candidate \<open>process_info\<close> to the source.\<close>

definition resolve_candidate :: "extractor \<Rightarrow> string \<Rightarrow> nat \<Rightarrow> jv \<Rightarrow> error + track" where
  "resolve_candidate ytdl search req process_info =
     (case process_info of
        JDict pinfo \<Rightarrow>
          (let webpage_url = py_or (dict_get pinfo ''url'') (dict_get pinfo ''webpage_url'')
           in if \<not> truthy webpage_url then Inl (ValueError (NoValidUrl search))
              else (case as_query webpage_url of
                      Inl e \<Rightarrow> Inl e
                    | Inr q \<Rightarrow>
                       (case ytdl q True of
                          Inl e \<Rightarrow> Inl e
                        | Inr None \<Rightarrow> Inl (ValueError (CouldNotProcess search))
                        | Inr (Some processed_data) \<Rightarrow>
                            (if dict_has processed_data ''entries''
                             then (case first_processed (dict_get processed_data ''entries'') of
                                     Inl e \<Rightarrow> Inl e
                                   | Inr pd \<Rightarrow> finish_source search req pd)
                             else finish_source search req processed_data))))
      | _ \<Rightarrow> Inl AttributeError)"

text \<open>Line 90: \<^verbatim>\<open>list(data['entries'])\<close>.\<close>

fun py_list :: "jv \<Rightarrow> error + jv list" where
  "py_list (JList xs) = Inr xs"
| "py_list (JDict kvs) = Inr (map (\<lambda>kv. JStr (fst kv)) kvs)"
| "py_list (JStr s) = Inr (map (\<lambda>c. JStr [c]) s)"
| "py_list _ = Inl TypeError"

text \<open>Lines 77-125.\<close>

definition create_source :: "extractor \<Rightarrow> string \<Rightarrow> nat \<Rightarrow> error + track" where
  "create_source ytdl search req =
     (case ytdl search False of
        Inl e \<Rightarrow> Inl e
      | Inr None \<Rightarrow> Inl (ValueError (NothingMatching search))
      | Inr (Some d) \<Rightarrow>
          (if dict_has d ''entries''
           then (case py_list (dict_get d ''entries'') of
                   Inl e \<Rightarrow> Inl e
                 | Inr [] \<Rightarrow> Inl (ValueError (NothingMatching search))
                 | Inr (e # es) \<Rightarrow> resolve_candidate ytdl search req e)
           else resolve_candidate ytdl search req (JDict d)))"

subsection \<open>Per-guild state, voice clients, timer tasks\<close>

type_synonym guild_id = nat
type_synonym task_id = nat
type_synonym channel_id = nat

text \<open>
  \<^verbatim>\<open>GuildState\<close> (music.py, lines 15-31). \<open>disconnect_timer\<close> holds the handle of an
  asyncio task. \<open>voice_client\<close> is the attribute that \<^verbatim>\<open>play\<close> stores at line 215 (the
  identity of the voice client object); nothing reads it.
\<close>

record guild_state =
  queue :: "track list"
  current_track :: "track option"
  now_playing_message :: "nat option"
  disconnect_timer :: "task_id option"
  voice_client :: "nat option"

definition GuildState :: guild_state where
  "GuildState =
     \<lparr> queue = [], current_track = None, now_playing_message = None,
       disconnect_timer = None, voice_client = None \<rparr>"

text \<open>
  The output sink, \<^verbatim>\<open>discord.VoiceClient\<close>, as far as the cog observes it: the channel,
  \<^verbatim>\<open>is_connected()\<close>, and the audio player (\<open>vc_source\<close> is the source the player holds,
  \<open>vc_paused\<close> whether it is paused).
\<close>

record voice_client =
  vc_id :: nat
  vc_channel :: channel_id
  vc_connected :: bool
  vc_source :: "track option"
  vc_paused :: bool

definition is_playing :: "voice_client \<Rightarrow> bool" where
  "is_playing vc = (vc_source vc \<noteq> None \<and> \<not> vc_paused vc)"

definition is_paused :: "voice_client \<Rightarrow> bool" where
  "is_paused vc = (vc_source vc \<noteq> None \<and> vc_paused vc)"

text \<open>
  \<^verbatim>\<open>vc.play(source, after=...)\<close>: discord.py raises \<^verbatim>\<open>ClientException\<close> when the client is
  not connected or is already playing; otherwise a new player holds the source.
\<close>

definition vc_play :: "voice_client \<Rightarrow> track \<Rightarrow> error + voice_client" where
  "vc_play vc source =
     (if \<not> vc_connected vc then Inl ClientException
      else if is_playing vc then Inl ClientException
      else Inr (vc\<lparr>vc_source := Some source, vc_paused := False\<rparr>))"

text \<open>\<^verbatim>\<open>vc.stop()\<close>: the player, if any, is stopped and dropped.\<close>

definition vc_stop :: "voice_client \<Rightarrow> voice_client" where
  "vc_stop vc = vc\<lparr>vc_source := None, vc_paused := False\<rparr>"

datatype task_status = Pending | Cancelled | Finished

record task =
  task_guild :: guild_id
  task_status :: task_status

datatype log_entry =
    PlaybackError guild_id string
  | SourceError error
  | AutoDisconnected guild_id

record world =
  guild_states :: "guild_id \<rightharpoonup> guild_state"
  voice_clients :: "guild_id \<rightharpoonup> voice_client"
  guilds :: "guild_id set"
  tasks :: "task_id \<rightharpoonup> task"
  next_task :: task_id
  next_vc :: nat
  log :: "log_entry list"

text \<open>\<^verbatim>\<open>t and not t.done()\<close> for a timer handle: the task exists and has neither run nor been cancelled.\<close>

definition live :: "world \<Rightarrow> task_id option \<Rightarrow> bool" where
  "live w h =
     (case h of
        None \<Rightarrow> False
      | Some t \<Rightarrow> (case tasks w t of None \<Rightarrow> False | Some k \<Rightarrow> task_status k = Pending))"

text \<open>\<^verbatim>\<open>t.cancel()\<close>.\<close>

definition cancel :: "world \<Rightarrow> task_id \<Rightarrow> world" where
  "cancel w t =
     (case tasks w t of
        None \<Rightarrow> w
      | Some k \<Rightarrow> w\<lparr>tasks := (tasks w)(t \<mapsto> k\<lparr>task_status := Cancelled\<rparr>)\<rparr>)"

text \<open>\<^verbatim>\<open>asyncio.create_task(self.disconnect_after_timeout(guild_id))\<close>: a fresh pending task.\<close>

definition create_task :: "world \<Rightarrow> guild_id \<Rightarrow> world \<times> task_id" where
  "create_task w g =
     (w\<lparr>tasks := (tasks w)(next_task w \<mapsto> \<lparr>task_guild = g, task_status = Pending\<rparr>),
        next_task := Suc (next_task w)\<rparr>,
      next_task w)"

text \<open>Writing back the state object that the registry holds for a guild.\<close>

definition set_state :: "world \<Rightarrow> guild_id \<Rightarrow> guild_state \<Rightarrow> world" where
  "set_state w g s = w\<lparr>guild_states := (guild_states w)(g \<mapsto> s)\<rparr>"

subsection \<open>GuildState.clear, get_guild_state, full_stop\<close>

text \<open>
  \<^verbatim>\<open>GuildState.clear\<close> (lines 24-31). The handle is reset only inside the \<^verbatim>\<open>if\<close>: a timer
  that is already done stays in \<open>disconnect_timer\<close>.
\<close>

definition clear :: "world \<Rightarrow> guild_state \<Rightarrow> world \<times> guild_state" where
  "clear w s =
     (let s1 = s\<lparr>queue := [], current_track := None, now_playing_message := None\<rparr>
      in case disconnect_timer s1 of
           Some t \<Rightarrow>
             (if live w (Some t) then (cancel w t, s1\<lparr>disconnect_timer := None\<rparr>)
              else (w, s1))
         | None \<Rightarrow> (w, s1))"

text \<open>\<^verbatim>\<open>MusicCog.get_guild_state\<close> (lines 88-91).\<close>

definition get_guild_state :: "world \<Rightarrow> guild_id \<Rightarrow> world \<times> guild_state" where
  "get_guild_state w g =
     (case guild_states w g of
        None \<Rightarrow> (set_state w g GuildState, GuildState)
      | Some s \<Rightarrow> (w, s))"

text \<open>
  \<^verbatim>\<open>MusicCog.full_stop(guild, state)\<close> (lines 93-101). The state object is an argument; it
  is cleared in place, so the cleared object is returned beside the world. After
  \<^verbatim>\<open>vc.disconnect(force=True)\<close> the guild has no voice client. The registry entry of the
  guild is deleted whatever object it holds.
\<close>

definition full_stop :: "world \<Rightarrow> guild_id \<Rightarrow> guild_state \<Rightarrow> world \<times> guild_state" where
  "full_stop w g state =
     (case clear w state of
        (w1, state1) \<Rightarrow>
          (let w2 = (case voice_clients w1 g of
                       Some vc \<Rightarrow> w1\<lparr>voice_clients := (voice_clients w1)(g := None)\<rparr>
                     | None \<Rightarrow> w1)
           in (w2\<lparr>guild_states := (guild_states w2)(g := None)\<rparr>, state1)))"

subsection \<open>Connecting: \<^verbatim>\<open>ensure_voice\<close>\<close>

record interaction =
  i_guild :: guild_id
  i_user :: nat
  i_user_channel :: "channel_id option"

datatype reply =
    NeedVoiceChannel
  | CouldNotLoad error
  | NowPlayingReply track
  | AddedToQueue nat track
  | Skipped
  | NothingToSkip
  | StoppedAndDisconnected
  | NotConnectedReply
  | QueueIsEmpty
  | QueueEmbed "track option" "track list" nat

datatype result = Replied reply | Silent | Raised error

text \<open>\<^verbatim>\<open>channel.connect(self_deaf=True)\<close>: a new connected voice client for the guild.\<close>

definition connect :: "world \<Rightarrow> guild_id \<Rightarrow> channel_id \<Rightarrow> world \<times> voice_client" where
  "connect w g channel =
     (let vc = \<lparr> vc_id = next_vc w, vc_channel = channel, vc_connected = True,
                 vc_source = None, vc_paused = False \<rparr>
      in (w\<lparr>voice_clients := (voice_clients w)(g \<mapsto> vc), next_vc := Suc (next_vc w)\<rparr>, vc))"

text \<open>\<^verbatim>\<open>vc.move_to(channel)\<close>.\<close>

definition move_to :: "world \<Rightarrow> guild_id \<Rightarrow> voice_client \<Rightarrow> channel_id \<Rightarrow> world \<times> voice_client" where
  "move_to w g vc channel =
     (let vc1 = vc\<lparr>vc_channel := channel\<rparr>
      in (w\<lparr>voice_clients := (voice_clients w)(g \<mapsto> vc1)\<rparr>, vc1))"

text \<open>
  \<^verbatim>\<open>MusicCog.ensure_voice\<close> (lines 103-132). \<open>raises\<close> says whether the first voice
  operation of the \<^verbatim>\<open>try\<close> block raises \<^verbatim>\<open>ClientException\<close> (without effect); the
  \<^verbatim>\<open>except\<close> branch then reads the guild's voice client again. The third component is
  the message sent when the user is in no voice channel.
\<close>

definition ensure_voice ::
  "world \<Rightarrow> interaction \<Rightarrow> bool \<Rightarrow> world \<times> voice_client option \<times> reply option" where
  "ensure_voice w i raises =
     (case i_user_channel i of
        None \<Rightarrow> (w, None, Some NeedVoiceChannel)
      | Some channel \<Rightarrow>
          (let g = i_guild i in
           case voice_clients w g of
             None \<Rightarrow>
               (if raises then (w, None, None)
                else (case connect w g channel of (w1, vc) \<Rightarrow> (w1, Some vc, None)))
           | Some vc \<Rightarrow>
               (if vc_channel vc \<noteq> channel then
                  (case move_to w g vc channel of (w1, vc1) \<Rightarrow> (w1, Some vc1, None))
                else if \<not> vc_connected vc then
                  (if raises then (w, Some vc, None)
                   else (case connect (w\<lparr>voice_clients := (voice_clients w)(g := None)\<rparr>) g channel of
                           (w1, vc1) \<Rightarrow> (w1, Some vc1, None)))
                else (w, Some vc, None))))"

subsection \<open>The playback engine: \<^verbatim>\<open>play_next\<close>, the completion callback, the timer\<close>

datatype outcome =
    NotConnected
  | WentIdle task_id
  | NowPlaying track
  | PlayFailed track error
  | Queued nat

text \<open>
  \<^verbatim>\<open>MusicCog.play_next\<close> (lines 136-168). The second component tells which path was taken:
  the early return of line 142, the idle branch with the new timer, the track that became
  \<open>current_track\<close> and was handed to \<^verbatim>\<open>vc.play\<close>, or that track with the exception of
  \<^verbatim>\<open>vc.play\<close> (raised after lines 159-160 have run).
\<close>

definition play_next :: "world \<Rightarrow> guild_id \<Rightarrow> world \<times> outcome" where
  "play_next w0 g =
     (case get_guild_state w0 g of
        (w, state) \<Rightarrow>
          (case voice_clients w g of
             None \<Rightarrow> (w, NotConnected)
           | Some vc \<Rightarrow>
               (if \<not> vc_connected vc then (w, NotConnected)
                else
                  (case queue state of
                     [] \<Rightarrow>
                       (let state1 = state\<lparr>current_track := None\<rparr>;
                            w1 = (case disconnect_timer state1 of
                                    Some t \<Rightarrow> (if live w (Some t) then cancel w t else w)
                                  | None \<Rightarrow> w)
                        in case create_task w1 g of
                             (w2, t) \<Rightarrow>
                               (set_state w2 g (state1\<lparr>disconnect_timer := Some t\<rparr>), WentIdle t))
                   | source # rest \<Rightarrow>
                       (case (case disconnect_timer state of
                                Some t \<Rightarrow>
                                  (if live w (Some t)
                                   then (cancel w t, state\<lparr>disconnect_timer := None\<rparr>)
                                   else (w, state))
                              | None \<Rightarrow> (w, state)) of
                          (w1, state1) \<Rightarrow>
                            (let state2 = state1\<lparr>queue := rest, current_track := Some source\<rparr>;
                                 w2 = set_state w1 g state2
                             in case vc_play vc source of
                                  Inl e \<Rightarrow> (w2, PlayFailed source e)
                                | Inr vc1 \<Rightarrow>
                                    (w2\<lparr>voice_clients := (voice_clients w2)(g \<mapsto> vc1)\<rparr>,
                                     NowPlaying source)))))))"

text \<open>
  \<^verbatim>\<open>after_playing\<close> (lines 162-166), the callback the player calls when the source ends:
  an error is logged, and in both cases \<^verbatim>\<open>play_next\<close> is scheduled on the event loop.
\<close>

definition after_playing :: "world \<Rightarrow> guild_id \<Rightarrow> string option \<Rightarrow> world \<times> outcome" where
  "after_playing w g err =
     play_next (case err of
                  Some e \<Rightarrow> w\<lparr>log := log w @ [PlaybackError g e]\<rparr>
                | None \<Rightarrow> w) g"

text \<open>
  \<^verbatim>\<open>MusicCog.disconnect_after_timeout\<close> (lines 188-200), the body that runs once the
  300 seconds of \<^verbatim>\<open>asyncio.sleep\<close> have elapsed. In the teardown branch \<^verbatim>\<open>clear\<close> asks
  for the cancellation of the task that is running this very body; the model records the
  request in the task table and lets \<^verbatim>\<open>full_stop\<close> run to its end, which the program may
  not do. The statements below are about the branches that tear nothing down.
\<close>

definition disconnect_after_timeout :: "world \<Rightarrow> guild_id \<Rightarrow> world" where
  "disconnect_after_timeout w g =
     (if g \<notin> guilds w then w
      else (case guild_states w g of
              None \<Rightarrow> w
            | Some state \<Rightarrow>
                (case voice_clients w g of
                   None \<Rightarrow> w
                 | Some vc \<Rightarrow>
                     (if vc_connected vc \<and> \<not> is_playing vc
                      then (let w1 = fst (full_stop w g state)
                            in w1\<lparr>log := log w1 @ [AutoDisconnected g]\<rparr>)
                      else w))))"

subsection \<open>The slash commands and the Stop button\<close>

text \<open>
  Lines 213 and 226-237 of \<^verbatim>\<open>play\<close>: the resolved source is put on the queue of the
  guild's state object, then \<^verbatim>\<open>play_next\<close> runs if the voice client is neither playing
  nor paused. \<open>vc\<close> is the client that \<^verbatim>\<open>ensure_voice\<close> returned.
\<close>

definition enqueue :: "world \<Rightarrow> guild_id \<Rightarrow> voice_client \<Rightarrow> track \<Rightarrow> world \<times> outcome" where
  "enqueue w0 g vc source =
     (case get_guild_state w0 g of
        (w, state) \<Rightarrow>
          (let state1 = state\<lparr>queue := queue state @ [source]\<rparr>;
               w1 = set_state w g state1
           in if \<not> is_playing vc \<and> \<not> is_paused vc then play_next w1 g
              else (w1, Queued (length (queue state1)))))"

text \<open>The reply of lines 229-237 (an exception of \<^verbatim>\<open>play_next\<close> propagates).\<close>

fun play_reply :: "outcome \<Rightarrow> track \<Rightarrow> result" where
  "play_reply (Queued pos) source = Replied (AddedToQueue (pos + 1) source)"
| "play_reply (PlayFailed t e) source = Raised e"
| "play_reply _ source = Replied (NowPlayingReply source)"

text \<open>\<^verbatim>\<open>MusicCog.play\<close> (lines 206-237).\<close>

definition play :: "extractor \<Rightarrow> world \<Rightarrow> interaction \<Rightarrow> string \<Rightarrow> bool \<Rightarrow> world \<times> result" where
  "play ytdl w i search raises =
     (case ensure_voice w i raises of
        (w1, None, r) \<Rightarrow> (w1, (case r of Some m \<Rightarrow> Replied m | None \<Rightarrow> Silent))
      | (w1, Some vc, r) \<Rightarrow>
          (case get_guild_state w1 (i_guild i) of
             (w2, state) \<Rightarrow>
               (let w3 = set_state w2 (i_guild i) (state\<lparr>voice_client := Some (vc_id vc)\<rparr>)
                in case create_source ytdl search (i_user i) of
                     Inl e \<Rightarrow> (w3\<lparr>log := log w3 @ [SourceError e]\<rparr>, Replied (CouldNotLoad e))
                   | Inr source \<Rightarrow>
                       (case enqueue w3 (i_guild i) vc source of
                          (w4, out) \<Rightarrow> (w4, play_reply out source)))))"

text \<open>\<^verbatim>\<open>MusicCog.skip\<close> (lines 240-246): only \<^verbatim>\<open>vc.stop()\<close>; the state is not touched.\<close>

definition skip :: "world \<Rightarrow> guild_id \<Rightarrow> world \<times> result" where
  "skip w g =
     (case voice_clients w g of
        None \<Rightarrow> (w, Replied NothingToSkip)
      | Some vc \<Rightarrow>
          (if is_playing vc
           then (w\<lparr>voice_clients := (voice_clients w)(g \<mapsto> vc_stop vc)\<rparr>, Replied Skipped)
           else (w, Replied NothingToSkip)))"

text \<open>\<^verbatim>\<open>MusicCog.stop\<close> (lines 249-256).\<close>

definition stop :: "world \<Rightarrow> guild_id \<Rightarrow> world \<times> result" where
  "stop w g =
     (case get_guild_state w g of
        (w1, state) \<Rightarrow>
          (case voice_clients w1 g of
             Some vc \<Rightarrow> (fst (full_stop w1 g state), Replied StoppedAndDisconnected)
           | None \<Rightarrow> (w1, Replied NotConnectedReply)))"

text \<open>
  \<^verbatim>\<open>MusicControlView.stop\<close> (lines 70-73); the view was created for the guild it is shown
  in (line 182).
\<close>

definition button_stop :: "world \<Rightarrow> guild_id \<Rightarrow> world \<times> result" where
  "button_stop w g =
     (case get_guild_state w g of
        (w1, state) \<Rightarrow> (fst (full_stop w1 g state), Replied StoppedAndDisconnected))"

text \<open>\<^verbatim>\<open>MusicCog.queue\<close> (lines 259-289): the command named \<^verbatim>\<open>queue\<close>.\<close>

definition queue_command :: "world \<Rightarrow> guild_id \<Rightarrow> world \<times> result" where
  "queue_command w g =
     (case get_guild_state w g of
        (w1, state) \<Rightarrow>
          (let upcoming = queue state
           in if upcoming \<noteq> []
              then (w1, Replied (QueueEmbed (current_track state) (take 10 upcoming)
                                   (length upcoming - 10)))
              else if current_track state = None then (w1, Replied QueueIsEmpty)
              else (w1, Replied (QueueEmbed (current_track state) [] 0))))"

subsection \<open>Completion of a track, runs of events\<close>

text \<open>
  The end of the audio player, in its own thread: the source has run out, has failed, or
  \<^verbatim>\<open>vc.stop()\<close> was called. From then on \<^verbatim>\<open>is_playing()\<close> is false. The player
  then calls \<^verbatim>\<open>after_playing\<close>, which only schedules \<^verbatim>\<open>play_next\<close> on the event loop
  (lines 165-166).
\<close>

definition player_ends :: "world \<Rightarrow> guild_id \<Rightarrow> world" where
  "player_ends w g =
     (case voice_clients w g of
        Some vc \<Rightarrow> w\<lparr>voice_clients := (voice_clients w)(g \<mapsto> vc_stop vc)\<rparr>
      | None \<Rightarrow> w)"

text \<open>
  A completion with nothing in between: the player ends and the scheduled \<^verbatim>\<open>play_next\<close>
  runs.
\<close>

definition completion :: "world \<Rightarrow> guild_id \<Rightarrow> string option \<Rightarrow> world \<times> outcome" where
  "completion w g err = after_playing (player_ends w g) g err"

text \<open>
  The events of one session that touch its queue or its player, each one step of the
  program: an accepted enqueue (lines 226-237 of a \<^verbatim>\<open>play\<close> request that has a voice
  client and a resolved source); the end of the player; the run of the \<^verbatim>\<open>play_next\<close>
  that \<^verbatim>\<open>after_playing\<close> scheduled; and \<^verbatim>\<open>skip\<close>, whose \<^verbatim>\<open>vc.stop()\<close> ends the player, the
  scheduled \<^verbatim>\<open>play_next\<close> being a later event. A run is any sequence of them, so an
  enqueue may come between the end of a player and its \<^verbatim>\<open>play_next\<close>.
\<close>

datatype event = Enqueue track | Ended | Advance "string option" | Skip

text \<open>The track that a call of \<^verbatim>\<open>play_next\<close> made \<open>current_track\<close> (lines 159-160), if any.\<close>

fun started :: "outcome \<Rightarrow> track list" where
  "started (NowPlaying t) = [t]"
| "started (PlayFailed t e) = [t]"
| "started _ = []"

text \<open>One event: the new world and the track that became current during the event.\<close>

definition step :: "world \<Rightarrow> guild_id \<Rightarrow> event \<Rightarrow> world \<times> track list" where
  "step w g ev =
     (case ev of
        Enqueue t \<Rightarrow>
          (case voice_clients w g of
             Some vc \<Rightarrow> (case enqueue w g vc t of (w1, out) \<Rightarrow> (w1, started out))
           | None \<Rightarrow> (w, []))
      | Ended \<Rightarrow> (player_ends w g, [])
      | Advance err \<Rightarrow> (case after_playing w g err of (w1, out) \<Rightarrow> (w1, started out))
      | Skip \<Rightarrow> (fst (skip w g), []))"

text \<open>A run returns the final world and the tracks that became current, in that order.\<close>

fun run :: "world \<Rightarrow> guild_id \<Rightarrow> event list \<Rightarrow> world \<times> track list" where
  "run w g [] = (w, [])"
| "run w g (ev # evs) =
     (case step w g ev of
        (w1, ts1) \<Rightarrow> (case run w1 g evs of (w2, ts) \<Rightarrow> (w2, ts1 @ ts)))"

fun enqueued :: "event list \<Rightarrow> track list" where
  "enqueued [] = []"
| "enqueued (Enqueue t # evs) = t # enqueued evs"
| "enqueued (_ # evs) = enqueued evs"

text \<open>\<open>n\<close> tracks running to their end, one after the other.\<close>

fun completions :: "nat \<Rightarrow> event list" where
  "completions 0 = []"
| "completions (Suc n) = Ended # Advance None # completions n"

subsection \<open>Observations of a session\<close>

text \<open>A guild without registry entry is observed as a fresh state.\<close>

definition session :: "world \<Rightarrow> guild_id \<Rightarrow> guild_state" where
  "session w g = (case guild_states w g of None \<Rightarrow> GuildState | Some s \<Rightarrow> s)"

definition pending :: "world \<Rightarrow> guild_id \<Rightarrow> track list" where
  "pending w g = queue (session w g)"

definition current :: "world \<Rightarrow> guild_id \<Rightarrow> track option" where
  "current w g = current_track (session w g)"

definition timer_live :: "world \<Rightarrow> guild_id \<Rightarrow> bool" where
  "timer_live w g = live w (disconnect_timer (session w g))"

definition connected :: "world \<Rightarrow> guild_id \<Rightarrow> bool" where
  "connected w g = (case voice_clients w g of None \<Rightarrow> False | Some vc \<Rightarrow> vc_connected vc)"

definition sink_idle :: "world \<Rightarrow> guild_id \<Rightarrow> bool" where
  "sink_idle w g =
     (case voice_clients w g of None \<Rightarrow> True | Some vc \<Rightarrow> \<not> is_playing vc \<and> \<not> is_paused vc)"

definition sink_source :: "world \<Rightarrow> guild_id \<Rightarrow> track option" where
  "sink_source w g = (case voice_clients w g of None \<Rightarrow> None | Some vc \<Rightarrow> vc_source vc)"

text \<open>The timer invariant of the specification.\<close>

definition timer_inv :: "world \<Rightarrow> guild_id \<Rightarrow> bool" where
  "timer_inv w g = (timer_live w g = (current w g = None \<and> connected w g))"

subsection \<open>Concrete inputs\<close>

definition trackA :: track where
  "trackA = YTDLSource [(''title'', JStr ''A''), (''url'', JStr ''streamA'')]"

definition trackB :: track where
  "trackB = YTDLSource [(''title'', JStr ''B''), (''url'', JStr ''streamB'')]"

definition trackX :: track where
  "trackX = YTDLSource [(''title'', JStr ''X''), (''url'', JStr ''streamX'')]"

definition world0 :: world where
  "world0 =
     \<lparr> guild_states = Map.empty, voice_clients = Map.empty, guilds = {1},
       tasks = Map.empty, next_task = 0, next_vc = 0, log = [] \<rparr>"

definition user1 :: interaction where
  "user1 = \<lparr> i_guild = 1, i_user = 7, i_user_channel = Some 5 \<rparr>"

text \<open>
  An extractor: the search \<^verbatim>\<open>song\<close> finds two entries, \<^verbatim>\<open>nothing\<close> finds an empty
  collection, \<^verbatim>\<open>broken\<close> makes yt-dlp raise; the URLs \<^verbatim>\<open>u1\<close> and \<^verbatim>\<open>u2\<close> resolve.
\<close>

definition demo_ytdl :: extractor where
  "demo_ytdl q process =
     (if process then
        (if q = ''u1'' then Inr (Some [(''title'', JStr ''A''), (''url'', JStr ''streamA'')])
         else if q = ''u2'' then Inr (Some [(''title'', JStr ''B''), (''url'', JStr ''streamB'')])
         else Inr None)
      else if q = ''song'' then
        Inr (Some [(''entries'', JList [JDict [(''url'', JStr ''u1'')], JDict [(''url'', JStr ''u2'')]])])
      else if q = ''nothing'' then Inr (Some [(''entries'', JList [])])
      else Inl (ExtractorError q))"

text \<open>A connected voice client that is not playing, and one that plays track A.\<close>

definition idle_vc :: voice_client where
  "idle_vc = \<lparr> vc_id = 0, vc_channel = 5, vc_connected = True, vc_source = None, vc_paused = False \<rparr>"

definition busy_vc :: voice_client where
  "busy_vc = idle_vc\<lparr>vc_source := Some trackA\<rparr>"

text \<open>Guild 1 connected and idle, with an empty fresh state.\<close>

definition world_idle :: world where
  "world_idle = world0\<lparr>guild_states := [1 \<mapsto> GuildState], voice_clients := [1 \<mapsto> idle_vc]\<rparr>"

text \<open>Guild 1 playing track A with track B pending.\<close>

definition world_playing :: world where
  "world_playing =
     world0\<lparr>guild_states := [1 \<mapsto> GuildState\<lparr>queue := [trackB], current_track := Some trackA\<rparr>],
            voice_clients := [1 \<mapsto> busy_vc]\<rparr>"

text \<open>
  Guild 1 after its voice connection dropped while track A was playing: the client is
  still there, disconnected, and its player has ended.
\<close>

definition world_dropped :: world where
  "world_dropped =
     world_playing\<lparr>voice_clients := [1 \<mapsto> idle_vc\<lparr>vc_connected := False\<rparr>]\<rparr>"

text \<open>Guild 1 connected and idle, no current track, with track A left on the queue.\<close>

definition world_backlog :: world where
  "world_backlog =
     world0\<lparr>guild_states := [1 \<mapsto> GuildState\<lparr>queue := [trackA]\<rparr>],
            voice_clients := [1 \<mapsto> idle_vc]\<rparr>"

text \<open>Guild 1 playing track A, its last track: the queue is empty.\<close>

definition world_last :: world where
  "world_last =
     world0\<lparr>guild_states := [1 \<mapsto> GuildState\<lparr>current_track := Some trackA\<rparr>],
            voice_clients := [1 \<mapsto> busy_vc]\<rparr>"

section \<open>The resolver picks the first entry\<close>

text \<open>
  Claim C9. When the first-phase extraction of \<^verbatim>\<open>create_source\<close> yields a dict with a
  collection under \<^verbatim>\<open>entries\<close>, the single candidate that is resolved into a track is the
  first entry of the collection, whatever follows it; when the collection is empty,
  \<^verbatim>\<open>create_source\<close> fails with the \<^verbatim>\<open>ValueError\<close> "Couldn't find anything matching" and
  produces no track.
\<close>

theorem create_source_first_entry:
  assumes "ytdl search False = Inr (Some d)"
    and "dict_has d ''entries''"
    and "py_list (dict_get d ''entries'') = Inr entries"
  shows "create_source ytdl search req =
           (case entries of
              [] \<Rightarrow> Inl (ValueError (NothingMatching search))
            | e # es \<Rightarrow> resolve_candidate ytdl search req e)"
  using assms by (simp add: create_source_def split: list.splits)

theorem create_source_first_entry_witness:
  "demo_ytdl ''song'' False =
     Inr (Some [(''entries'', JList [JDict [(''url'', JStr ''u1'')], JDict [(''url'', JStr ''u2'')]])])
   \<and> create_source demo_ytdl ''song'' 7 =
       resolve_candidate demo_ytdl ''song'' 7 (JDict [(''url'', JStr ''u1'')])
   \<and> create_source demo_ytdl ''song'' 7 =
       Inr (YTDLSource [(''title'', JStr ''A''), (''url'', JStr ''streamA''), (''requester'', JUser 7)])
   \<and> demo_ytdl ''nothing'' False = Inr (Some [(''entries'', JList [])])
   \<and> create_source demo_ytdl ''nothing'' 7 = Inl (ValueError (NothingMatching ''nothing''))"
proof -
  let ?d = "[(''entries'', JList [JDict [(''url'', JStr ''u1'')], JDict [(''url'', JStr ''u2'')]])]"
  have h1: "demo_ytdl ''song'' False = Inr (Some ?d)"
    by (simp add: demo_ytdl_def)
  have h2: "dict_has ?d ''entries''"
    by (simp add: dict_has_def)
  have h3: "py_list (dict_get ?d ''entries'') =
              Inr [JDict [(''url'', JStr ''u1'')], JDict [(''url'', JStr ''u2'')]]"
    by (simp add: dict_get_def)
  have e1: "demo_ytdl ''nothing'' False = Inr (Some [(''entries'', JList [])])"
    by (simp add: demo_ytdl_def)
  have e2: "dict_has [(''entries'', JList [])] ''entries''"
    by (simp add: dict_has_def)
  have e3: "py_list (dict_get [(''entries'', JList [])] ''entries'') = Inr []"
    by (simp add: dict_get_def)
  have r: "resolve_candidate demo_ytdl ''song'' 7 (JDict [(''url'', JStr ''u1'')]) =
             Inr (YTDLSource [(''title'', JStr ''A''), (''url'', JStr ''streamA''), (''requester'', JUser 7)])"
    by (simp add: resolve_candidate_def demo_ytdl_def dict_get_def dict_has_def py_or_def
          finish_source_def Let_def)
  show ?thesis
    using create_source_first_entry [where ytdl = demo_ytdl and search = "''song''" and req = 7, OF h1 h2 h3]
      create_source_first_entry [where ytdl = demo_ytdl and search = "''nothing''" and req = 7, OF e1 e2 e3]
      h1 e1 r
    by simp
qed

section \<open>Shared facts about the engine\<close>

lemma play_next_pending:
  "play_next w g = (w', out) \<Longrightarrow> started out @ pending w' g = pending w g"
  by (auto simp: play_next_def get_guild_state_def pending_def session_def set_state_def
        GuildState_def create_task_def cancel_def Let_def
      split: option.splits if_splits list.splits prod.splits sum.splits)

lemma play_next_voice:
  "play_next w g = (w', out) \<Longrightarrow> (voice_clients w' g = None) = (voice_clients w g = None)"
  by (auto simp: play_next_def get_guild_state_def set_state_def
        GuildState_def create_task_def cancel_def Let_def
      split: option.splits if_splits list.splits prod.splits sum.splits)

lemma get_guild_state_voice: "voice_clients (fst (get_guild_state w g)) = voice_clients w"
  by (simp add: get_guild_state_def set_state_def split: option.splits)

lemma get_guild_state_entry:
  "guild_states (fst (get_guild_state w g)) g = Some (snd (get_guild_state w g))"
  by (simp add: get_guild_state_def set_state_def split: option.splits)

lemma get_guild_state_miss:
  "guild_states w g = None \<Longrightarrow> get_guild_state w g = (set_state w g GuildState, GuildState)"
  by (simp add: get_guild_state_def)

lemma get_guild_state_hit: "guild_states w g = Some s \<Longrightarrow> get_guild_state w g = (w, s)"
  by (simp add: get_guild_state_def)

lemma get_guild_state_session: "snd (get_guild_state w g) = session w g"
  by (simp add: get_guild_state_def session_def split: option.splits)

section \<open>Tracks play in the order they were enqueued\<close>

lemma enqueue_pending:
  assumes "enqueue w g vc t = (w', out)"
  shows "started out @ pending w' g = pending w g @ [t]"
proof -
  obtain w0 s where gs: "get_guild_state w g = (w0, s)"
    by (cases "get_guild_state w g")
  let ?w1 = "set_state w0 g (s\<lparr>queue := queue s @ [t]\<rparr>)"
  have put: "pending ?w1 g = pending w g @ [t]"
    using get_guild_state_session [of w g] gs
    by (simp add: pending_def session_def set_state_def)
  show ?thesis
  proof (cases "\<not> is_playing vc \<and> \<not> is_paused vc")
    case True
    with assms gs have "play_next ?w1 g = (w', out)"
      by (simp add: enqueue_def Let_def)
    then have "started out @ pending w' g = pending ?w1 g"
      by (rule play_next_pending)
    with put show ?thesis by simp
  next
    case False
    with assms gs have "w' = ?w1" and "out = Queued (length (queue s @ [t]))"
      by (auto simp: enqueue_def Let_def)
    with put show ?thesis by simp
  qed
qed

lemma enqueue_voice:
  "enqueue w g vc t = (w', out) \<Longrightarrow> (voice_clients w' g = None) = (voice_clients w g = None)"
  by (auto simp: enqueue_def Let_def set_state_def get_guild_state_def
        split: option.splits prod.splits if_splits dest!: play_next_voice)

lemma after_playing_pending:
  "after_playing w g err = (w', out) \<Longrightarrow> started out @ pending w' g = pending w g"
  by (auto simp: after_playing_def pending_def session_def
        split: option.splits dest!: play_next_pending)

lemma after_playing_voice:
  "after_playing w g err = (w', out) \<Longrightarrow> (voice_clients w' g = None) = (voice_clients w g = None)"
  by (auto simp: after_playing_def split: option.splits dest!: play_next_voice)

lemma player_ends_pending: "pending (player_ends w g) g = pending w g"
  by (simp add: player_ends_def pending_def session_def split: option.splits)

lemma player_ends_voice: "(voice_clients (player_ends w g) g = None) = (voice_clients w g = None)"
  by (simp add: player_ends_def split: option.splits)

lemma skip_pending: "pending (fst (skip w g)) g = pending w g"
  by (simp add: skip_def pending_def session_def split: option.splits)

lemma skip_voice: "(voice_clients (fst (skip w g)) g = None) = (voice_clients w g = None)"
  by (simp add: skip_def split: option.splits)

lemma step_pending:
  assumes "step w g ev = (w', ts)" and "voice_clients w g \<noteq> None"
  shows "ts @ pending w' g = pending w g @ enqueued [ev] \<and> voice_clients w' g \<noteq> None"
proof (cases ev)
  case (Enqueue t)
  with assms show ?thesis
    by (auto simp: step_def split: option.splits prod.splits dest: enqueue_pending enqueue_voice)
next
  case Ended
  with assms player_ends_voice [of w g] player_ends_pending [of w g] show ?thesis
    by (auto simp: step_def)
next
  case (Advance err)
  with assms show ?thesis
    by (auto simp: step_def split: prod.splits dest: after_playing_pending after_playing_voice)
next
  case Skip
  with assms skip_voice [of w g] skip_pending [of w g] show ?thesis
    by (auto simp: step_def)
qed

lemma enqueued_Cons: "enqueued (ev # evs) = enqueued [ev] @ enqueued evs"
  by (cases ev) simp_all

lemma enqueued_map_Enqueue: "enqueued (map Enqueue ts) = ts"
  by (induction ts) simp_all

lemma run_pending:
  assumes "run w g evs = (w', played)" and "voice_clients w g \<noteq> None"
  shows "played @ pending w' g = pending w g @ enqueued evs"
  using assms
proof (induction evs arbitrary: w played)
  case Nil
  then show ?case by simp
next
  case (Cons ev evs)
  obtain w1 ts1 where st: "step w g ev = (w1, ts1)"
    by (cases "step w g ev")
  obtain w2 ts where rn: "run w1 g evs = (w2, ts)"
    by (cases "run w1 g evs")
  from Cons.prems st rn have eq: "w' = w2" "played = ts1 @ ts"
    by simp_all
  from step_pending [OF st Cons.prems(2)]
  have a: "ts1 @ pending w1 g = pending w g @ enqueued [ev]" and b: "voice_clients w1 g \<noteq> None"
    by simp_all
  from rn eq have rn': "run w1 g evs = (w', ts)"
    by simp
  from Cons.IH [OF rn' b] have c: "ts @ pending w' g = pending w1 g @ enqueued evs" .
  have "played @ pending w' g = ts1 @ (ts @ pending w' g)"
    using eq by simp
  also have "\<dots> = (ts1 @ pending w1 g) @ enqueued evs"
    using c by simp
  also have "\<dots> = pending w g @ enqueued [ev] @ enqueued evs"
    using a by simp
  finally show ?case
    using enqueued_Cons [of ev evs] by simp
qed

text \<open>On a connected session \<^verbatim>\<open>play_next\<close> takes the head of the queue, if there is one.\<close>

lemma play_next_takes_head:
  "connected w g \<Longrightarrow>
   started (snd (play_next w g)) = take 1 (pending w g)
   \<and> pending (fst (play_next w g)) g = drop 1 (pending w g)"
  by (auto simp: play_next_def get_guild_state_def pending_def session_def set_state_def
        connected_def GuildState_def create_task_def cancel_def Let_def
      split: option.splits if_splits list.splits prod.splits sum.splits)

lemma play_next_connected: "connected (fst (play_next w g)) g = connected w g"
  by (auto simp: play_next_def get_guild_state_def set_state_def connected_def vc_play_def
        GuildState_def create_task_def cancel_def Let_def
      split: option.splits if_splits list.splits prod.splits sum.splits)

lemma after_playing_connected: "connected (fst (after_playing w g err)) g = connected w g"
proof -
  have "connected (case err of Some e \<Rightarrow> w\<lparr>log := log w @ [PlaybackError g e]\<rparr> | None \<Rightarrow> w) g
          = connected w g"
    by (simp add: connected_def split: option.splits)
  then show ?thesis
    unfolding after_playing_def using play_next_connected by simp
qed

lemma enqueue_connected: "connected (fst (enqueue w g vc t)) g = connected w g"
proof -
  obtain w0 s where gs: "get_guild_state w g = (w0, s)"
    by (cases "get_guild_state w g")
  let ?w1 = "set_state w0 g (s\<lparr>queue := queue s @ [t]\<rparr>)"
  have c: "connected ?w1 g = connected w g"
    using gs get_guild_state_voice [of w g] by (simp add: connected_def set_state_def)
  show ?thesis
    using gs c play_next_connected [of ?w1 g] by (simp add: enqueue_def Let_def)
qed

lemma player_ends_connected: "connected (player_ends w g) g = connected w g"
  by (simp add: player_ends_def connected_def vc_stop_def split: option.splits)

lemma skip_connected: "connected (fst (skip w g)) g = connected w g"
  by (simp add: skip_def connected_def vc_stop_def split: option.splits)

lemma step_connected: "connected (fst (step w g ev)) g = connected w g"
proof (cases ev)
  case (Enqueue t)
  show ?thesis
  proof (cases "voice_clients w g")
    case None
    with Enqueue show ?thesis
      by (simp add: step_def)
  next
    case (Some vc)
    with Enqueue have "fst (step w g ev) = fst (enqueue w g vc t)"
      by (simp add: step_def split_beta)
    then show ?thesis
      by (simp add: enqueue_connected)
  qed
next
  case Ended
  then show ?thesis
    by (simp add: step_def player_ends_connected)
next
  case (Advance err)
  then show ?thesis
    using after_playing_connected [of w g err] by (simp add: step_def split_beta)
next
  case Skip
  then show ?thesis
    by (simp add: step_def skip_connected)
qed

lemma run_connected: "connected (fst (run w g evs)) g = connected w g"
proof (induction evs arbitrary: w)
  case Nil
  then show ?case by simp
next
  case (Cons ev evs)
  from Cons.IH [of "fst (step w g ev)"] step_connected [of w g ev] show ?case
    by (simp add: split_beta)
qed

lemma run_append:
  "run w g (xs @ ys) =
     (fst (run (fst (run w g xs)) g ys), snd (run w g xs) @ snd (run (fst (run w g xs)) g ys))"
  by (induction xs arbitrary: w) (simp_all add: split_beta)

lemma completion_takes_head:
  assumes "connected w g"
  shows "run w g [Ended, Advance None] =
           (fst (after_playing (player_ends w g) g None), take 1 (pending w g))
         \<and> pending (fst (after_playing (player_ends w g) g None)) g = drop 1 (pending w g)
         \<and> connected (fst (after_playing (player_ends w g) g None)) g"
proof -
  let ?w1 = "player_ends w g"
  have c: "connected ?w1 g"
    using assms by (simp add: player_ends_connected)
  from play_next_takes_head [OF c] player_ends_pending [of w g]
  have "started (snd (after_playing ?w1 g None)) = take 1 (pending w g)"
    and "pending (fst (after_playing ?w1 g None)) g = drop 1 (pending w g)"
    by (simp_all add: after_playing_def)
  with c after_playing_connected [of ?w1 g None] show ?thesis
    by (simp add: step_def split_beta)
qed

lemma completions_drain:
  "connected w g \<Longrightarrow> length (pending w g) \<le> n \<Longrightarrow>
   snd (run w g (completions n)) = pending w g
   \<and> pending (fst (run w g (completions n))) g = []"
proof (induction n arbitrary: w)
  case 0
  then show ?case by simp
next
  case (Suc n)
  let ?w2 = "fst (after_playing (player_ends w g) g None)"
  from completion_takes_head [OF Suc.prems(1)]
  have r: "run w g [Ended, Advance None] = (?w2, take 1 (pending w g))"
    and p: "pending ?w2 g = drop 1 (pending w g)" and c: "connected ?w2 g"
    by simp_all
  from p Suc.prems(2) have l: "length (pending ?w2 g) \<le> n"
    by simp
  have "run w g (completions (Suc n)) =
          (fst (run ?w2 g (completions n)), take 1 (pending w g) @ snd (run ?w2 g (completions n)))"
    using run_append [of w g "[Ended, Advance None]" "completions n"] r by simp
  with Suc.IH [OF c l] p show ?case
    by simp
qed

lemma run_then_completions:
  assumes "connected w g" and "length (pending (fst (run w g evs)) g) \<le> n"
  shows "snd (run w g (evs @ completions n)) = pending w g @ enqueued evs
         \<and> pending (fst (run w g (evs @ completions n))) g = []"
proof -
  let ?w1 = "fst (run w g evs)"
  have v: "voice_clients w g \<noteq> None"
    using assms(1) by (auto simp: connected_def split: option.splits)
  have c: "connected ?w1 g"
    using assms(1) by (simp add: run_connected)
  from run_pending [of w g evs ?w1 "snd (run w g evs)"] v
  have a: "snd (run w g evs) @ pending ?w1 g = pending w g @ enqueued evs"
    by simp
  from completions_drain [OF c assms(2)] a show ?thesis
    by (simp add: run_append)
qed

lemma enqueues_then_completions:
  assumes "connected w g" and "pending w g = []"
  shows "snd (run w g (map Enqueue ts @ completions (length ts))) = ts"
proof -
  let ?w1 = "fst (run w g (map Enqueue ts))"
  have v: "voice_clients w g \<noteq> None"
    using assms(1) by (auto simp: connected_def split: option.splits)
  from run_pending [of w g "map Enqueue ts" ?w1 "snd (run w g (map Enqueue ts))"] v assms(2)
  have "snd (run w g (map Enqueue ts)) @ pending ?w1 g = ts"
    by (simp add: enqueued_map_Enqueue)
  then have "length (pending ?w1 g) \<le> length ts"
    by (metis length_append le_add2)
  from run_then_completions [OF assms(1) this] assms(2) show ?thesis
    by (simp add: enqueued_map_Enqueue)
qed

text \<open>
  Claim C1. Take any sequence of events of a session: accepted enqueues (\<^verbatim>\<open>play\<close> putting
  a resolved track on \<open>queue\<close>), ends of the player, runs of the scheduled \<^verbatim>\<open>play_next\<close>
  and skips, in any order. The tracks that became \<open>current_track\<close> during the run, in the
  order in which they did, followed by the tracks still pending at the end, are exactly the
  tracks pending at the start followed by the enqueued tracks in enqueue order: no track
  overtakes another, none is lost, none becomes current twice. On a connected session the
  queue is played out: when enough tracks then run to their end, the tracks that became
  current are all the tracks pending at the start and all the enqueued tracks, in enqueue
  order, and the queue is empty. In particular, enqueueing the tracks \<open>ts\<close> on a connected
  session with an empty queue and letting as many tracks complete makes exactly \<open>ts\<close>
  current, in that order.
\<close>

theorem play_order_is_enqueue_order:
  "(voice_clients w g \<noteq> None \<longrightarrow>
      snd (run w g evs) @ pending (fst (run w g evs)) g = pending w g @ enqueued evs)
   \<and> (connected w g \<and> length (pending (fst (run w g evs)) g) \<le> n \<longrightarrow>
        snd (run w g (evs @ completions n)) = pending w g @ enqueued evs
        \<and> pending (fst (run w g (evs @ completions n))) g = [])
   \<and> (connected w g \<and> pending w g = [] \<longrightarrow>
        snd (run w g (map Enqueue ts @ completions (length ts))) = ts)"
  using run_pending [of w g evs "fst (run w g evs)" "snd (run w g evs)"]
    run_then_completions [of w g evs n] enqueues_then_completions [of w g ts]
  by simp

theorem play_order_is_enqueue_order_witness:
  "voice_clients world_idle 1 \<noteq> None \<and> connected world_idle 1 \<and> pending world_idle 1 = []
   \<and> snd (run world_idle 1
         [Enqueue trackA, Enqueue trackB, Enqueue trackX, Ended, Advance None, Skip])
       = [trackA, trackB]
   \<and> pending (fst (run world_idle 1
         [Enqueue trackA, Enqueue trackB, Enqueue trackX, Ended, Advance None, Skip])) 1
       = [trackX]
   \<and> snd (run world_idle 1
         ([Enqueue trackA, Enqueue trackB, Enqueue trackX, Ended, Advance None, Skip]
            @ completions 1))
       = [trackA, trackB, trackX]
   \<and> pending (fst (run world_idle 1
         ([Enqueue trackA, Enqueue trackB, Enqueue trackX, Ended, Advance None, Skip]
            @ completions 1))) 1
       = []
   \<and> snd (run world_idle 1
         (map Enqueue [trackA, trackB, trackX] @ completions (length [trackA, trackB, trackX])))
       = [trackA, trackB, trackX]"
proof -
  let ?evs = "[Enqueue trackA, Enqueue trackB, Enqueue trackX, Ended, Advance None, Skip]"
  have v: "voice_clients world_idle 1 \<noteq> None"
    by (simp add: world_idle_def)
  have c: "connected world_idle 1"
    by (simp add: connected_def world_idle_def idle_vc_def)
  have p: "pending world_idle 1 = []"
    by (simp add: pending_def session_def world_idle_def GuildState_def)
  have r: "snd (run world_idle 1 ?evs) = [trackA, trackB]
           \<and> pending (fst (run world_idle 1 ?evs)) 1 = [trackX]"
    by (simp add: step_def enqueue_def after_playing_def player_ends_def skip_def play_next_def
          get_guild_state_def set_state_def vc_play_def vc_stop_def is_playing_def is_paused_def
          pending_def session_def world_idle_def world0_def idle_vc_def GuildState_def Let_def)
  then have l: "length (pending (fst (run world_idle 1 ?evs)) 1) \<le> 1"
    by simp
  show ?thesis
    using v c p r l
      play_order_is_enqueue_order [of world_idle 1 ?evs 1 "[trackA, trackB, trackX]"]
    by simp
qed

section \<open>The inactivity timer and the idle state\<close>

lemmas observation_defs =
  timer_inv_def timer_live_def current_def connected_def session_def live_def

lemma play_next_connected_inv:
  "connected w g \<Longrightarrow> timer_inv (fst (play_next w g)) g"
  by (auto simp: observation_defs play_next_def get_guild_state_def set_state_def vc_play_def
        GuildState_def create_task_def cancel_def Let_def
      split: option.splits if_splits list.splits prod.splits sum.splits)

lemma play_next_keeps_inv:
  "timer_inv w g \<Longrightarrow> \<not> connected w g \<Longrightarrow> timer_inv (fst (play_next w g)) g"
  by (auto simp: observation_defs play_next_def get_guild_state_def set_state_def GuildState_def
      split: option.splits if_splits list.splits prod.splits sum.splits)

lemma full_stop_inv: "timer_inv (fst (full_stop w g s)) g"
  by (auto simp: observation_defs full_stop_def clear_def GuildState_def cancel_def Let_def
      split: option.splits if_splits prod.splits)

lemma put_observations:
  "get_guild_state w g = (w0, s) \<Longrightarrow>
   timer_inv (set_state w0 g (s\<lparr>queue := q\<rparr>)) g = timer_inv w g
   \<and> connected (set_state w0 g (s\<lparr>queue := q\<rparr>)) g = connected w g"
  by (auto simp: observation_defs get_guild_state_def set_state_def GuildState_def
      split: option.splits)

lemma enqueue_inv:
  assumes "timer_inv w g"
  shows "timer_inv (fst (enqueue w g vc t)) g"
proof -
  obtain w0 s where gs: "get_guild_state w g = (w0, s)"
    by (cases "get_guild_state w g")
  let ?w1 = "set_state w0 g (s\<lparr>queue := queue s @ [t]\<rparr>)"
  from put_observations [OF gs, of "queue s @ [t]"] assms
  have i: "timer_inv ?w1 g"
    by simp
  have "timer_inv (fst (play_next ?w1 g)) g"
    using play_next_connected_inv [of ?w1 g] play_next_keeps_inv [of ?w1 g] i by blast
  with i gs show ?thesis
    by (simp add: enqueue_def Let_def)
qed

lemma skip_inv: "timer_inv (fst (skip w g)) g = timer_inv w g"
  by (auto simp: observation_defs skip_def vc_stop_def split: option.splits)

lemma completion_inv: "connected w g \<Longrightarrow> timer_inv (fst (completion w g err)) g"
  unfolding completion_def after_playing_def
  by (rule play_next_connected_inv)
    (auto simp: connected_def player_ends_def vc_stop_def split: option.splits)

text \<open>
  Claim C2, as stated, fails after a connect: \<^verbatim>\<open>ensure_voice\<close> joins the user's channel for
  a guild without state. The session is then connected and has no current track, and no
  timer was armed. The same holds after a whole \<^verbatim>\<open>play\<close> request whose resolution fails.
\<close>

theorem timer_invariant_fails_after_connect:
  "connected (fst (ensure_voice world0 user1 False)) 1
   \<and> current (fst (ensure_voice world0 user1 False)) 1 = None
   \<and> \<not> timer_live (fst (ensure_voice world0 user1 False)) 1
   \<and> \<not> timer_inv (fst (ensure_voice world0 user1 False)) 1
   \<and> \<not> timer_inv (fst (play demo_ytdl world0 user1 ''broken'' False)) 1"
  by (simp add: observation_defs play_def ensure_voice_def world0_def user1_def connect_def
        GuildState_def Let_def create_source_def demo_ytdl_def get_guild_state_def set_state_def)

text \<open>
  Claim C2, amended. \<^verbatim>\<open>play_next\<close> on a connected session, the completion of a track
  (also after a skip) on a connected session, and \<^verbatim>\<open>full_stop\<close> establish the invariant:
  right after them a live timer exists iff there is no current track and the session is
  connected. Enqueue and \<^verbatim>\<open>skip\<close> keep the invariant when it held before. Connecting
  is not among the transitions that establish it.
\<close>

theorem timer_invariant_after_transitions:
  "(connected w g \<longrightarrow> timer_inv (fst (play_next w g)) g)
   \<and> (connected w g \<longrightarrow> timer_inv (fst (completion w g err)) g)
   \<and> timer_inv (fst (full_stop w g s)) g
   \<and> (timer_inv w g \<longrightarrow> timer_inv (fst (enqueue w g vc t)) g)
   \<and> (timer_inv w g \<longrightarrow> timer_inv (fst (skip w g)) g)"
  using play_next_connected_inv [of w g] completion_inv [of w g err] full_stop_inv [of w g s]
    enqueue_inv [of w g vc t] skip_inv [of w g]
  by simp

theorem timer_invariant_after_transitions_witness:
  "connected world_playing 1 \<and> timer_inv world_playing 1
   \<and> timer_inv (fst (play_next world_playing 1)) 1
   \<and> timer_inv (fst (completion world_playing 1 None)) 1
   \<and> timer_inv (fst (full_stop world_playing 1 (session world_playing 1))) 1
   \<and> timer_inv (fst (enqueue world_playing 1 busy_vc trackX)) 1
   \<and> timer_inv (fst (skip world_playing 1)) 1
   \<and> connected world_idle 1 \<and> timer_live (fst (play_next world_idle 1)) 1"
proof -
  have c: "connected world_playing 1"
    by (simp add: connected_def world_playing_def busy_vc_def idle_vc_def)
  have i: "timer_inv world_playing 1"
    by (simp add: observation_defs world_playing_def world0_def busy_vc_def idle_vc_def
          GuildState_def)
  have c': "connected world_idle 1"
    by (simp add: connected_def world_idle_def idle_vc_def)
  have l: "timer_live (fst (play_next world_idle 1)) 1"
    by (simp add: observation_defs world_idle_def world0_def idle_vc_def GuildState_def
          play_next_def get_guild_state_def set_state_def create_task_def Let_def)
  show ?thesis
    using c i c' l
      timer_invariant_after_transitions [of world_playing 1 None "session world_playing 1"
        busy_vc trackX]
    by simp
qed


section \<open>Stopping twice\<close>

lemma clear_twice: "clear w s = (w1, s1) \<Longrightarrow> clear w1 s1 = (w1, s1)"
  by (auto simp: clear_def live_def cancel_def Let_def split: option.splits if_splits)

lemma clear_frame:
  "clear (w\<lparr>voice_clients := v, guild_states := r\<rparr>) s =
     ((fst (clear w s))\<lparr>voice_clients := v, guild_states := r\<rparr>, snd (clear w s))"
  by (auto simp: clear_def live_def cancel_def Let_def split: option.splits)

lemma clear_keeps:
  "voice_clients (fst (clear w s)) = voice_clients w
   \<and> guild_states (fst (clear w s)) = guild_states w"
  by (auto simp: clear_def live_def cancel_def Let_def split: option.splits)

lemma full_stop_alt:
  "full_stop w g s =
     ((fst (clear w s))\<lparr>voice_clients := (voice_clients w)(g := None),
                        guild_states := (guild_states w)(g := None)\<rparr>,
      snd (clear w s))"
proof -
  obtain wc sc where c: "clear w s = (wc, sc)"
    by (cases "clear w s")
  have k: "voice_clients wc = voice_clients w" "guild_states wc = guild_states w"
    using clear_keeps [of w s] c by simp_all
  show ?thesis
  proof (cases "voice_clients w g")
    case None
    then have "(voice_clients w)(g := None) = voice_clients w"
      by auto
    with None c k show ?thesis
      by (simp add: full_stop_def Let_def)
  next
    case (Some vc)
    with c k show ?thesis
      by (simp add: full_stop_def Let_def)
  qed
qed

lemma full_stop_twice:
  assumes "full_stop w g s = (w1, s1)"
  shows "full_stop w1 g s1 = (w1, s1)"
proof -
  obtain wc sc where c: "clear w s = (wc, sc)"
    by (cases "clear w s")
  from assms c have s1: "s1 = sc"
    and w1: "w1 = wc\<lparr>voice_clients := (voice_clients w)(g := None),
                      guild_states := (guild_states w)(g := None)\<rparr>"
    by (simp_all add: full_stop_alt)
  have "clear w1 s1 = (w1, s1)"
    unfolding w1 s1 clear_frame using clear_twice [OF c] by simp
  then show ?thesis
    by (simp add: full_stop_alt w1)
qed

lemma full_stop_end:
  assumes "full_stop w g s = (w1, s1)"
  shows "queue s1 = [] \<and> current_track s1 = None \<and> \<not> live w1 (disconnect_timer s1)
         \<and> voice_clients w1 g = None \<and> guild_states w1 g = None"
  using assms unfolding full_stop_alt
  by (auto simp: clear_def live_def cancel_def Let_def split: option.splits if_splits)

lemma stop_connected:
  assumes "voice_clients w g = Some vc"
  shows "voice_clients (fst (stop w g)) g = None \<and> guild_states (fst (stop w g)) g = None
         \<and> snd (stop w g) = Replied StoppedAndDisconnected"
proof -
  obtain w1 s where gs: "get_guild_state w g = (w1, s)"
    by (cases "get_guild_state w g")
  with assms get_guild_state_voice [of w g] have v: "voice_clients w1 g = Some vc"
    by simp
  with gs have "stop w g = (fst (full_stop w1 g s), Replied StoppedAndDisconnected)"
    by (simp add: stop_def)
  then show ?thesis
    by (simp add: full_stop_alt)
qed

lemma stop_not_connected:
  assumes "voice_clients w g = None"
  shows "stop w g = (fst (get_guild_state w g), Replied NotConnectedReply)"
proof -
  obtain w1 s where gs: "get_guild_state w g = (w1, s)"
    by (cases "get_guild_state w g")
  with assms get_guild_state_voice [of w g] have v: "voice_clients w1 g = None"
    by simp
  with gs show ?thesis
    by (simp add: stop_def)
qed

lemma stop_twice:
  "stop (fst (stop w g)) g =
     (if voice_clients w g = None then fst (stop w g)
      else set_state (fst (stop w g)) g GuildState,
      Replied NotConnectedReply)"
proof (cases "voice_clients w g")
  case None
  let ?w1 = "fst (get_guild_state w g)"
  have a: "stop w g = (?w1, Replied NotConnectedReply)"
    using None by (rule stop_not_connected)
  have "voice_clients ?w1 g = None"
    using None get_guild_state_voice [of w g] by simp
  then have "stop ?w1 g = (fst (get_guild_state ?w1 g), Replied NotConnectedReply)"
    by (rule stop_not_connected)
  moreover have "get_guild_state ?w1 g = (?w1, snd (get_guild_state w g))"
    using get_guild_state_entry [of w g] by (rule get_guild_state_hit)
  ultimately show ?thesis
    using a None by simp
next
  case (Some vc)
  let ?w1 = "fst (stop w g)"
  from stop_connected [OF Some]
  have v: "voice_clients ?w1 g = None" and r: "guild_states ?w1 g = None"
    by simp_all
  from stop_not_connected [OF v] get_guild_state_miss [OF r] Some show ?thesis
    by simp
qed

lemma button_stop_twice: "button_stop (fst (button_stop w g)) g = button_stop w g"
proof -
  obtain w1 s where gs: "get_guild_state w g = (w1, s)"
    by (cases "get_guild_state w g")
  obtain w2 s2 where fs: "full_stop w1 g s = (w2, s2)"
    by (cases "full_stop w1 g s")
  have b: "button_stop w g = (w2, Replied StoppedAndDisconnected)"
    using gs fs by (simp add: button_stop_def)
  from fs have r: "guild_states w2 g = None" and v: "voice_clients w2 g = None"
    by (auto simp: full_stop_alt)
  have "(guild_states w2)(g := None) = guild_states w2"
    and "(voice_clients w2)(g := None) = voice_clients w2"
    using r v by auto
  then have "full_stop (set_state w2 g GuildState) g GuildState = (w2, GuildState)"
    by (simp add: full_stop_alt clear_def GuildState_def set_state_def Let_def)
  with get_guild_state_miss [OF r] b show ?thesis
    by (simp add: button_stop_def)
qed

text \<open>
  Claim C3, as stated, fails for the \<^verbatim>\<open>stop\<close> command: on a session that is playing, the
  first \<^verbatim>\<open>stop\<close> removes the registry entry; the second one, finding no voice client,
  replies "not connected", but \<^verbatim>\<open>get_guild_state\<close> at its first line has put a fresh
  state in the registry. Two stops do not end in the state that one stop ends in, and the
  session has a registry entry again.
\<close>

theorem stop_command_twice_differs:
  "guild_states (fst (stop world_playing 1)) 1 = None
   \<and> guild_states (fst (stop (fst (stop world_playing 1)) 1)) 1 = Some GuildState
   \<and> fst (stop (fst (stop world_playing 1)) 1) \<noteq> fst (stop world_playing 1)"
proof -
  have v: "voice_clients world_playing 1 = Some busy_vc"
    by (simp add: world_playing_def)
  have r: "guild_states (fst (stop world_playing 1)) 1 = None"
    using stop_connected [OF v] by simp
  have "guild_states (fst (stop (fst (stop world_playing 1)) 1)) 1 = Some GuildState"
    unfolding stop_twice using v by (simp add: set_state_def)
  with r show ?thesis
    by auto
qed

text \<open>
  Claim C3, amended. \<^verbatim>\<open>full_stop\<close> is idempotent: after \<^verbatim>\<open>full_stop\<close> the state object has
  no current track, an empty queue and no live timer, the guild has no voice client and no
  registry entry, and a second \<^verbatim>\<open>full_stop\<close> on the same state object changes nothing; the
  Stop button, which always calls \<^verbatim>\<open>full_stop\<close>, is idempotent too. The \<^verbatim>\<open>stop\<close> command
  called a second time never fails: it replies "not connected", and its end state is the
  end state of the first call, with a fresh empty registry entry added when the first call
  had torn a connected session down.
\<close>

theorem full_stop_idempotent:
  "(full_stop w g s = (w1, s1) \<longrightarrow>
      full_stop w1 g s1 = (w1, s1)
      \<and> current_track s1 = None \<and> queue s1 = [] \<and> \<not> live w1 (disconnect_timer s1)
      \<and> voice_clients w1 g = None \<and> guild_states w1 g = None)
   \<and> button_stop (fst (button_stop w g)) g = button_stop w g
   \<and> stop (fst (stop w g)) g =
       (if voice_clients w g = None then fst (stop w g)
        else set_state (fst (stop w g)) g GuildState,
        Replied NotConnectedReply)"
  using full_stop_twice [of w g s w1 s1] full_stop_end [of w g s w1 s1]
    button_stop_twice [of w g] stop_twice [of w g]
  by simp

theorem full_stop_idempotent_witness:
  "full_stop world_playing 1 (session world_playing 1) =
     (world0, GuildState)
   \<and> full_stop world0 1 GuildState = (world0, GuildState)
   \<and> guild_states world0 1 = None \<and> voice_clients world0 1 = None
   \<and> voice_clients world_playing 1 \<noteq> None
   \<and> stop (fst (stop world_playing 1)) 1 =
       (set_state (fst (stop world_playing 1)) 1 GuildState, Replied NotConnectedReply)"
proof -
  have f: "full_stop world_playing 1 (session world_playing 1) = (world0, GuildState)"
    by (simp add: full_stop_def clear_def session_def world_playing_def world0_def
          GuildState_def busy_vc_def idle_vc_def Let_def)
  have v: "voice_clients world_playing 1 \<noteq> None"
    by (simp add: world_playing_def)
  have e: "guild_states world0 1 = None \<and> voice_clients world0 1 = None"
    by (simp add: world0_def)
  have t: "full_stop world0 1 GuildState = (world0, GuildState)"
    and u: "stop (fst (stop world_playing 1)) 1 =
              (if voice_clients world_playing 1 = None then fst (stop world_playing 1)
               else set_state (fst (stop world_playing 1)) 1 GuildState,
               Replied NotConnectedReply)"
    using f full_stop_idempotent [of world_playing 1 "session world_playing 1" world0 GuildState]
    by blast+
  have nv: "(voice_clients world_playing 1 = None) = False"
    using v by blast
  from u have "stop (fst (stop world_playing 1)) 1 =
      (set_state (fst (stop world_playing 1)) 1 GuildState, Replied NotConnectedReply)"
    unfolding nv if_False .
  with f v e t show ?thesis
    by blast
qed


section \<open>A playback error advances the queue\<close>

lemma play_next_log:
  "play_next (w\<lparr>log := l\<rparr>) g = ((fst (play_next w g))\<lparr>log := l\<rparr>, snd (play_next w g))"
  by (auto simp: play_next_def get_guild_state_def set_state_def live_def
        GuildState_def create_task_def cancel_def Let_def
      split: option.splits if_splits list.splits prod.splits sum.splits)

lemma play_next_starts:
  assumes "voice_clients w g = Some vc" and "vc_connected vc" and "\<not> is_playing vc"
    and "pending w g = t # rest"
  shows "snd (play_next w g) = NowPlaying t \<and> current (fst (play_next w g)) g = Some t
         \<and> pending (fst (play_next w g)) g = rest
         \<and> sink_source (fst (play_next w g)) g = Some t
         \<and> sink_idle (fst (play_next w g)) g = False"
  using assms
  by (auto simp: play_next_def get_guild_state_def set_state_def vc_play_def is_playing_def
        is_paused_def pending_def current_def session_def sink_source_def sink_idle_def
        GuildState_def cancel_def Let_def
      split: option.splits if_splits list.splits prod.splits sum.splits)

lemma play_next_goes_idle:
  assumes "voice_clients w g = Some vc" and "vc_connected vc" and "pending w g = []"
  shows "snd (play_next w g) = WentIdle (next_task w) \<and> current (fst (play_next w g)) g = None
         \<and> pending (fst (play_next w g)) g = [] \<and> timer_live (fst (play_next w g)) g"
  using assms
  by (auto simp: play_next_def get_guild_state_def set_state_def
        pending_def current_def session_def timer_live_def live_def
        GuildState_def cancel_def create_task_def Let_def
      split: option.splits if_splits list.splits prod.splits sum.splits)

lemma play_next_not_connected:
  "\<not> connected w g \<Longrightarrow> play_next w g = (fst (get_guild_state w g), NotConnected)"
  by (auto simp: play_next_def connected_def get_guild_state_def set_state_def
      split: option.splits prod.splits)


text \<open>
  Claim C5, as stated, fails when the voice client is no longer connected (the usual
  company of a playback error): \<^verbatim>\<open>play_next\<close> returns at line 142, track B stays on the
  queue, track A stays \<open>current_track\<close>, and no timer is armed.
\<close>

theorem playback_error_stalls_when_disconnected:
  "pending world_dropped 1 = [trackB]
   \<and> snd (after_playing world_dropped 1 (Some ''boom'')) = NotConnected
   \<and> pending (fst (after_playing world_dropped 1 (Some ''boom''))) 1 = [trackB]
   \<and> current (fst (after_playing world_dropped 1 (Some ''boom''))) 1 = Some trackA
   \<and> sink_source (fst (after_playing world_dropped 1 (Some ''boom''))) 1 = None
   \<and> \<not> timer_live (fst (after_playing world_dropped 1 (Some ''boom''))) 1"
  by (simp add: after_playing_def play_next_def get_guild_state_def world_dropped_def
        world_playing_def world0_def idle_vc_def busy_vc_def GuildState_def
        pending_def current_def session_def sink_source_def timer_live_def live_def)

text \<open>
  Claim C5, amended. A completion with a playback error is handled exactly as a normal
  completion, apart from the line written to the log: \<^verbatim>\<open>play_next\<close> runs on the same
  state with the same result. Provided the voice client is still connected (and its player
  has ended), the head of the queue becomes \<open>current_track\<close>, leaves the queue and is
  handed to the voice client; with an empty queue the session has no current track and a
  live timer.
\<close>

theorem playback_error_advances:
  "after_playing w g (Some e) =
     ((fst (after_playing w g None))\<lparr>log := log w @ [PlaybackError g e]\<rparr>,
      snd (after_playing w g None))
   \<and> (voice_clients w g = Some vc \<and> vc_connected vc \<and> \<not> is_playing vc \<longrightarrow>
        (\<forall>t rest. pending w g = t # rest \<longrightarrow>
           snd (after_playing w g (Some e)) = NowPlaying t
           \<and> current (fst (after_playing w g (Some e))) g = Some t
           \<and> pending (fst (after_playing w g (Some e))) g = rest
           \<and> sink_source (fst (after_playing w g (Some e))) g = Some t)
        \<and> (pending w g = [] \<longrightarrow>
           current (fst (after_playing w g (Some e))) g = None
           \<and> timer_live (fst (after_playing w g (Some e))) g))"
proof -
  let ?w = "w\<lparr>log := log w @ [PlaybackError g e]\<rparr>"
  have p: "pending ?w g = pending w g" and v: "voice_clients ?w g = voice_clients w g"
    by (simp_all add: pending_def session_def)
  have a: "after_playing w g (Some e) = play_next ?w g"
    by (simp add: after_playing_def)
  have "after_playing w g (Some e) =
     ((fst (after_playing w g None))\<lparr>log := log w @ [PlaybackError g e]\<rparr>,
      snd (after_playing w g None))"
    by (simp add: after_playing_def play_next_log)
  moreover have "snd (after_playing w g (Some e)) = NowPlaying t
           \<and> current (fst (after_playing w g (Some e))) g = Some t
           \<and> pending (fst (after_playing w g (Some e))) g = rest
           \<and> sink_source (fst (after_playing w g (Some e))) g = Some t"
    if "voice_clients w g = Some vc" "vc_connected vc" "\<not> is_playing vc"
       "pending w g = t # rest" for t rest
    unfolding a using play_next_starts [of ?w g vc t rest] that p v by simp
  moreover have "current (fst (after_playing w g (Some e))) g = None
           \<and> timer_live (fst (after_playing w g (Some e))) g"
    if "voice_clients w g = Some vc" "vc_connected vc" "pending w g = []"
    unfolding a using play_next_goes_idle [of ?w g vc] that p v by simp
  ultimately show ?thesis
    by blast
qed

theorem playback_error_advances_witness:
  "voice_clients world_backlog 1 = Some idle_vc \<and> vc_connected idle_vc \<and> \<not> is_playing idle_vc
   \<and> pending world_backlog 1 = [trackA]
   \<and> snd (after_playing world_backlog 1 (Some ''boom'')) = NowPlaying trackA
   \<and> current (fst (after_playing world_backlog 1 (Some ''boom''))) 1 = Some trackA
   \<and> pending (fst (after_playing world_backlog 1 (Some ''boom''))) 1 = []
   \<and> sink_source (fst (after_playing world_backlog 1 (Some ''boom''))) 1 = Some trackA
   \<and> voice_clients world_idle 1 = Some idle_vc \<and> pending world_idle 1 = []
   \<and> current (fst (after_playing world_idle 1 (Some ''boom''))) 1 = None
   \<and> timer_live (fst (after_playing world_idle 1 (Some ''boom''))) 1"
proof -
  have b: "voice_clients world_backlog 1 = Some idle_vc \<and> vc_connected idle_vc
           \<and> \<not> is_playing idle_vc"
    by (simp add: world_backlog_def idle_vc_def is_playing_def)
  have pb: "pending world_backlog 1 = [trackA]"
    by (simp add: pending_def session_def world_backlog_def)
  have i: "voice_clients world_idle 1 = Some idle_vc"
    by (simp add: world_idle_def)
  have p: "pending world_idle 1 = []"
    by (simp add: pending_def session_def world_idle_def GuildState_def)
  show ?thesis
    using b pb i p
      playback_error_advances [of world_backlog 1 "''boom''" idle_vc]
      playback_error_advances [of world_idle 1 "''boom''" idle_vc]
    by blast
qed


section \<open>Enqueue\<close>

lemma put_keeps:
  "get_guild_state w g = (w0, s) \<Longrightarrow>
   voice_clients (set_state w0 g (s\<lparr>queue := q\<rparr>)) = voice_clients w
   \<and> pending (set_state w0 g (s\<lparr>queue := q\<rparr>)) g = q
   \<and> s = session w g"
  by (auto simp: get_guild_state_def set_state_def pending_def session_def split: option.splits)

text \<open>
  Claim C6, as stated, fails on an idle, connected session with no current track whose
  queue is not empty: enqueueing X makes the head of the queue, track A, current, and X
  stays queued.
\<close>

theorem enqueue_into_idle_plays_head:
  "current world_backlog 1 = None \<and> connected world_backlog 1 \<and> sink_idle world_backlog 1
   \<and> current (fst (enqueue world_backlog 1 idle_vc trackX)) 1 = Some trackA
   \<and> current (fst (enqueue world_backlog 1 idle_vc trackX)) 1 \<noteq> Some trackX
   \<and> pending (fst (enqueue world_backlog 1 idle_vc trackX)) 1 = [trackX]"
  by (simp add: enqueue_def play_next_def get_guild_state_def set_state_def vc_play_def
        world_backlog_def world0_def idle_vc_def GuildState_def is_playing_def is_paused_def
        current_def pending_def session_def connected_def sink_idle_def
        trackA_def trackX_def YTDLSource_def dict_get_def py_or_def)

text \<open>
  Claim C6, amended. Enqueue appends the track to the queue. If the voice client is
  neither playing nor paused and is connected, \<^verbatim>\<open>play_next\<close> runs at once: the head of the
  queue, which is the enqueued track itself when the queue was empty, leaves the queue,
  becomes \<open>current_track\<close> and is handed to the voice client. If the voice client is
  playing or paused, the only change is the append to the queue of the guild's state.
\<close>

theorem enqueue_appends_then_plays_if_idle:
  "voice_clients w g = Some vc \<longrightarrow>
     (\<not> is_playing vc \<and> \<not> is_paused vc \<and> vc_connected vc \<longrightarrow>
        (\<forall>t rest. pending w g @ [x] = t # rest \<longrightarrow>
           snd (enqueue w g vc x) = NowPlaying t
           \<and> current (fst (enqueue w g vc x)) g = Some t
           \<and> pending (fst (enqueue w g vc x)) g = rest
           \<and> sink_source (fst (enqueue w g vc x)) g = Some t)
        \<and> (pending w g = [] \<longrightarrow>
           current (fst (enqueue w g vc x)) g = Some x
           \<and> pending (fst (enqueue w g vc x)) g = []
           \<and> sink_source (fst (enqueue w g vc x)) g = Some x))
     \<and> (is_playing vc \<or> is_paused vc \<longrightarrow>
          enqueue w g vc x =
            (set_state (fst (get_guild_state w g)) g
               ((session w g)\<lparr>queue := pending w g @ [x]\<rparr>),
             Queued (length (pending w g) + 1)))"
proof -
  obtain w0 s where gs: "get_guild_state w g = (w0, s)"
    by (cases "get_guild_state w g")
  let ?w1 = "set_state w0 g (s\<lparr>queue := queue s @ [x]\<rparr>)"
  from put_keeps [OF gs, of "queue s @ [x]"]
  have v1: "voice_clients ?w1 = voice_clients w" and p1: "pending ?w1 g = queue s @ [x]"
    and s: "s = session w g"
    by blast+
  have q: "queue s = pending w g"
    using s by (simp add: pending_def)
  have idle: "enqueue w g vc x = play_next ?w1 g" if "\<not> is_playing vc" "\<not> is_paused vc"
    using gs that by (simp add: enqueue_def Let_def)
  have busy: "enqueue w g vc x =
            (set_state (fst (get_guild_state w g)) g
               ((session w g)\<lparr>queue := pending w g @ [x]\<rparr>),
             Queued (length (pending w g) + 1))" if "is_playing vc \<or> is_paused vc"
    using gs that s q by (auto simp: enqueue_def Let_def)
  have head: "snd (enqueue w g vc x) = NowPlaying t
           \<and> current (fst (enqueue w g vc x)) g = Some t
           \<and> pending (fst (enqueue w g vc x)) g = rest
           \<and> sink_source (fst (enqueue w g vc x)) g = Some t"
    if "voice_clients w g = Some vc" "\<not> is_playing vc" "\<not> is_paused vc" "vc_connected vc"
       "pending w g @ [x] = t # rest" for t rest
    using play_next_starts [of ?w1 g vc t rest] idle that v1 p1 q by simp
  from head [of x "[]"] busy head show ?thesis
    by (metis append_Nil)
qed

theorem enqueue_appends_then_plays_if_idle_witness:
  "voice_clients world_idle 1 = Some idle_vc
   \<and> \<not> is_playing idle_vc \<and> \<not> is_paused idle_vc \<and> vc_connected idle_vc
   \<and> pending world_idle 1 = []
   \<and> current (fst (enqueue world_idle 1 idle_vc trackX)) 1 = Some trackX
   \<and> pending (fst (enqueue world_idle 1 idle_vc trackX)) 1 = []
   \<and> sink_source (fst (enqueue world_idle 1 idle_vc trackX)) 1 = Some trackX
   \<and> voice_clients world_playing 1 = Some busy_vc \<and> is_playing busy_vc
   \<and> pending world_playing 1 = [trackB]
   \<and> enqueue world_playing 1 busy_vc trackX =
        (set_state world_playing 1 ((session world_playing 1)\<lparr>queue := [trackB, trackX]\<rparr>),
         Queued 2)"
proof -
  have i: "voice_clients world_idle 1 = Some idle_vc
           \<and> \<not> is_playing idle_vc \<and> \<not> is_paused idle_vc \<and> vc_connected idle_vc"
    by (simp add: world_idle_def idle_vc_def is_playing_def is_paused_def)
  have p: "pending world_idle 1 = []"
    by (simp add: pending_def session_def world_idle_def GuildState_def)
  have b: "voice_clients world_playing 1 = Some busy_vc \<and> is_playing busy_vc"
    by (simp add: world_playing_def busy_vc_def idle_vc_def is_playing_def)
  have pb: "pending world_playing 1 = [trackB]"
    by (simp add: pending_def session_def world_playing_def)
  have g: "fst (get_guild_state world_playing 1) = world_playing"
    by (simp add: get_guild_state_def world_playing_def)
  have "enqueue world_playing 1 busy_vc trackX =
        (set_state (fst (get_guild_state world_playing 1)) 1
           ((session world_playing 1)\<lparr>queue := pending world_playing 1 @ [trackX]\<rparr>),
         Queued (length (pending world_playing 1) + 1))"
    using b enqueue_appends_then_plays_if_idle [of world_playing 1 busy_vc trackX] by blast
  then have e: "enqueue world_playing 1 busy_vc trackX =
        (set_state world_playing 1 ((session world_playing 1)\<lparr>queue := [trackB, trackX]\<rparr>),
         Queued 2)"
    unfolding g pb by simp
  show ?thesis
    using i p b pb e enqueue_appends_then_plays_if_idle [of world_idle 1 idle_vc trackX]
    by blast
qed


section \<open>A stale timer does nothing\<close>

text \<open>
  Claim C7. When the timer fires, \<^verbatim>\<open>disconnect_after_timeout\<close> looks the guild, its state
  and its voice client up again. If the session has been torn down (no registry entry), if
  the voice client is gone or no longer connected, or if the voice client is playing, the
  firing changes nothing: in particular it never disconnects a session that is playing.
\<close>

theorem stale_timer_is_noop:
  "(guild_states w g = None \<longrightarrow> disconnect_after_timeout w g = w)
   \<and> (voice_clients w g = Some vc \<and> is_playing vc \<longrightarrow> disconnect_after_timeout w g = w)
   \<and> (\<not> connected w g \<longrightarrow> disconnect_after_timeout w g = w)
   \<and> (g \<notin> guilds w \<longrightarrow> disconnect_after_timeout w g = w)"
  by (auto simp: disconnect_after_timeout_def connected_def split: option.splits)

theorem stale_timer_is_noop_witness:
  "guild_states world0 1 = None \<and> disconnect_after_timeout world0 1 = world0
   \<and> voice_clients world_playing 1 = Some busy_vc \<and> is_playing busy_vc
   \<and> disconnect_after_timeout world_playing 1 = world_playing
   \<and> \<not> connected world_dropped 1 \<and> disconnect_after_timeout world_dropped 1 = world_dropped
   \<and> 2 \<notin> guilds world_idle \<and> disconnect_after_timeout world_idle 2 = world_idle
   \<and> timer_live (fst (play_next world_idle 1)) 1
   \<and> is_playing (the (voice_clients (fst (enqueue (fst (play_next world_idle 1)) 1 idle_vc trackX)) 1))
   \<and> disconnect_after_timeout (fst (enqueue (fst (play_next world_idle 1)) 1 idle_vc trackX)) 1
       = fst (enqueue (fst (play_next world_idle 1)) 1 idle_vc trackX)"
proof -
  let ?w = "fst (enqueue (fst (play_next world_idle 1)) 1 idle_vc trackX)"
  have a: "guild_states world0 1 = None"
    by (simp add: world0_def)
  have b: "voice_clients world_playing 1 = Some busy_vc \<and> is_playing busy_vc"
    by (simp add: world_playing_def busy_vc_def idle_vc_def is_playing_def)
  have c: "\<not> connected world_dropped 1"
    by (simp add: connected_def world_dropped_def)
  have d: "2 \<notin> guilds world_idle"
    by (simp add: world_idle_def world0_def)
  have l: "timer_live (fst (play_next world_idle 1)) 1"
    by (simp add: observation_defs world_idle_def world0_def idle_vc_def GuildState_def
          play_next_def get_guild_state_def set_state_def create_task_def Let_def)
  have v: "voice_clients ?w 1 = Some (idle_vc\<lparr>vc_source := Some trackX\<rparr>)"
    by (simp add: world_idle_def world0_def idle_vc_def GuildState_def enqueue_def
          play_next_def get_guild_state_def set_state_def create_task_def cancel_def live_def
          vc_play_def is_playing_def is_paused_def Let_def)
  have p: "is_playing (idle_vc\<lparr>vc_source := Some trackX\<rparr>)"
    by (simp add: is_playing_def idle_vc_def)
  from v p have e: "voice_clients ?w 1 = Some (idle_vc\<lparr>vc_source := Some trackX\<rparr>)
                    \<and> is_playing (idle_vc\<lparr>vc_source := Some trackX\<rparr>)"
    by simp
  have f: "is_playing (the (voice_clients ?w 1))"
    using v p by simp
  show ?thesis
    using a b c d l f
      stale_timer_is_noop [of world0 1 busy_vc]
      stale_timer_is_noop [of world_playing 1 busy_vc]
      stale_timer_is_noop [of world_dropped 1 busy_vc]
      stale_timer_is_noop [of world_idle 2 busy_vc]
      stale_timer_is_noop [of ?w 1 "idle_vc\<lparr>vc_source := Some trackX\<rparr>"] e
    by blast
qed


section \<open>A failed resolution enqueues nothing\<close>

lemma ensure_voice_frame:
  "guild_states (fst (ensure_voice w i raises)) = guild_states w
   \<and> tasks (fst (ensure_voice w i raises)) = tasks w"
  by (auto simp: ensure_voice_def connect_def move_to_def Let_def split: option.splits)

lemma play_failed_resolution:
  assumes "create_source ytdl search (i_user i) = Inl e"
    and "ensure_voice w i raises = (w1, Some vc, r)"
  shows "play ytdl w i search raises =
           ((set_state (fst (get_guild_state w1 (i_guild i))) (i_guild i)
               ((session w1 (i_guild i))\<lparr>voice_client := Some (vc_id vc)\<rparr>))
              \<lparr>log := log w1 @ [SourceError e]\<rparr>,
            Replied (CouldNotLoad e))"
proof -
  obtain w2 s where gs: "get_guild_state w1 (i_guild i) = (w2, s)"
    by (cases "get_guild_state w1 (i_guild i)")
  have l: "log w2 = log w1"
    using gs by (auto simp: get_guild_state_def set_state_def split: option.splits)
  have s: "s = session w1 (i_guild i)"
    using gs get_guild_state_session [of w1 "i_guild i"] by simp
  show ?thesis
    using assms gs l s by (simp add: play_def Let_def set_state_def)
qed

lemma play_no_voice:
  "ensure_voice w i raises = (w1, None, r) \<Longrightarrow> fst (play ytdl w i search raises) = w1"
  by (simp add: play_def)

text \<open>
  Claim C8. When \<^verbatim>\<open>create_source\<close> raises, \<^verbatim>\<open>play\<close> returns before line 226: the queue,
  the current track and the timer handle of the session are what they were before the
  request (a session without registry entry counting as a fresh state), no timer task is
  created or cancelled, and the states of the other guilds are untouched.
\<close>

theorem failed_resolution_keeps_session:
  "create_source ytdl search (i_user i) = Inl e \<Longrightarrow>
     pending (fst (play ytdl w i search raises)) (i_guild i) = pending w (i_guild i)
     \<and> current (fst (play ytdl w i search raises)) (i_guild i) = current w (i_guild i)
     \<and> disconnect_timer (session (fst (play ytdl w i search raises)) (i_guild i)) =
         disconnect_timer (session w (i_guild i))
     \<and> tasks (fst (play ytdl w i search raises)) = tasks w
     \<and> (g \<noteq> i_guild i \<longrightarrow> guild_states (fst (play ytdl w i search raises)) g = guild_states w g)"
proof -
  assume fail: "create_source ytdl search (i_user i) = Inl e"
  obtain w1 v r where ev: "ensure_voice w i raises = (w1, v, r)"
    by (cases "ensure_voice w i raises")
  have fr: "guild_states w1 = guild_states w" "tasks w1 = tasks w"
    using ensure_voice_frame [of w i raises] ev by simp_all
  then have se: "session w1 (i_guild i) = session w (i_guild i)"
    by (simp add: session_def)
  show ?thesis
  proof (cases v)
    case None
    with ev have "fst (play ytdl w i search raises) = w1"
      by (simp add: play_no_voice)
    with fr se show ?thesis
      by (simp add: pending_def current_def session_def)
  next
    case (Some vc)
    with ev have "ensure_voice w i raises = (w1, Some vc, r)"
      by simp
    from play_failed_resolution [OF fail this] fr se show ?thesis
      by (auto simp: pending_def current_def session_def set_state_def get_guild_state_def
          split: option.splits)
  qed
qed

theorem failed_resolution_keeps_session_witness:
  "create_source demo_ytdl ''broken'' (i_user user1) = Inl (ExtractorError ''broken'')
   \<and> snd (play demo_ytdl world_playing user1 ''broken'' False) =
       Replied (CouldNotLoad (ExtractorError ''broken''))
   \<and> pending (fst (play demo_ytdl world_playing user1 ''broken'' False)) 1 = [trackB]
   \<and> current (fst (play demo_ytdl world_playing user1 ''broken'' False)) 1 = Some trackA
   \<and> disconnect_timer (session (fst (play demo_ytdl world_playing user1 ''broken'' False)) 1) = None
   \<and> tasks (fst (play demo_ytdl world_playing user1 ''broken'' False)) = tasks world_playing"
proof -
  have f: "create_source demo_ytdl ''broken'' (i_user user1) = Inl (ExtractorError ''broken'')"
    by (simp add: create_source_def demo_ytdl_def)
  have g: "i_guild user1 = 1"
    by (simp add: user1_def)
  have p: "pending world_playing 1 = [trackB]" "current world_playing 1 = Some trackA"
    "disconnect_timer (session world_playing 1) = None"
    by (simp_all add: pending_def current_def session_def world_playing_def GuildState_def)
  have ev: "ensure_voice world_playing user1 False = (world_playing, Some busy_vc, None)"
    by (simp add: ensure_voice_def user1_def world_playing_def busy_vc_def idle_vc_def)
  have r: "snd (play demo_ytdl world_playing user1 ''broken'' False) =
       Replied (CouldNotLoad (ExtractorError ''broken''))"
    using play_failed_resolution [OF f ev] by simp
  show ?thesis
    using f r p failed_resolution_keeps_session [OF f, of world_playing False]
    unfolding g by simp
qed

section \<open>Looking a session up creates it\<close>

lemma play_next_entry: "guild_states (fst (play_next w g)) g \<noteq> None"
  by (auto simp: play_next_def get_guild_state_def set_state_def
        GuildState_def create_task_def cancel_def Let_def
      split: option.splits if_splits list.splits prod.splits sum.splits)

lemma enqueue_entry: "guild_states (fst (enqueue w g vc t)) g \<noteq> None"
  using play_next_entry
  by (auto simp: enqueue_def set_state_def Let_def split: prod.splits)

lemma play_entry:
  assumes "ensure_voice w i raises = (w1, Some vc, r)"
  shows "guild_states (fst (play ytdl w i search raises)) (i_guild i) \<noteq> None"
proof (cases "create_source ytdl search (i_user i)")
  case (Inl e)
  from play_failed_resolution [OF Inl assms] show ?thesis
    by (simp add: set_state_def)
next
  case (Inr source)
  obtain w2 s where gs: "get_guild_state w1 (i_guild i) = (w2, s)"
    by (cases "get_guild_state w1 (i_guild i)")
  let ?w3 = "set_state w2 (i_guild i) (s\<lparr>voice_client := Some (vc_id vc)\<rparr>)"
  have "fst (play ytdl w i search raises) = fst (enqueue ?w3 (i_guild i) vc source)"
    using assms Inr gs by (simp add: play_def Let_def split: prod.splits)
  then show ?thesis
    using enqueue_entry [of ?w3 "i_guild i" vc source] by simp
qed

text \<open>
  Claim C10. \<^verbatim>\<open>get_guild_state\<close> on a guild without registry entry inserts a fresh empty
  \<^verbatim>\<open>GuildState\<close>. So do the handlers that start with it: after the read-only \<^verbatim>\<open>queue\<close>
  command, and after a \<^verbatim>\<open>stop\<close> issued while not connected, the registry holds a fresh
  empty state for the guild; \<^verbatim>\<open>stop\<close> on a connected guild runs \<^verbatim>\<open>full_stop\<close> on the world
  with the inserted state; \<^verbatim>\<open>play_next\<close>, and \<^verbatim>\<open>play\<close> once it has a voice client, leave
  an entry for the guild.
\<close>

theorem lookup_inserts_state:
  "guild_states w g = None \<Longrightarrow>
     get_guild_state w g = (set_state w g GuildState, GuildState)
     \<and> guild_states (fst (get_guild_state w g)) g = Some GuildState
     \<and> queue_command w g = (set_state w g GuildState, Replied QueueIsEmpty)
     \<and> guild_states (fst (queue_command w g)) g = Some GuildState
     \<and> (voice_clients w g = None \<longrightarrow>
          stop w g = (set_state w g GuildState, Replied NotConnectedReply)
          \<and> guild_states (fst (stop w g)) g = Some GuildState)
     \<and> (voice_clients w g \<noteq> None \<longrightarrow>
          stop w g = (fst (full_stop (set_state w g GuildState) g GuildState),
                      Replied StoppedAndDisconnected))
     \<and> guild_states (fst (play_next w g)) g \<noteq> None
     \<and> (i_guild i = g \<and> fst (snd (ensure_voice w i raises)) \<noteq> None \<longrightarrow>
          guild_states (fst (play ytdl w i search raises)) g \<noteq> None)"
proof -
  assume miss: "guild_states w g = None"
  have a: "get_guild_state w g = (set_state w g GuildState, GuildState)"
    using miss by (rule get_guild_state_miss)
  have b: "guild_states (set_state w g GuildState) g = Some GuildState"
    and v: "voice_clients (set_state w g GuildState) g = voice_clients w g"
    by (simp_all add: set_state_def)
  have q: "queue_command w g = (set_state w g GuildState, Replied QueueIsEmpty)"
    using a by (simp add: queue_command_def GuildState_def Let_def)
  have s1: "stop w g = (set_state w g GuildState, Replied NotConnectedReply)"
    if "voice_clients w g = None"
    using a v that by (simp add: stop_def)
  have s2: "stop w g = (fst (full_stop (set_state w g GuildState) g GuildState),
                      Replied StoppedAndDisconnected)"
    if "voice_clients w g \<noteq> None"
    using a v that by (auto simp: stop_def)
  have p: "guild_states (fst (play ytdl w i search raises)) g \<noteq> None"
    if "i_guild i = g" "fst (snd (ensure_voice w i raises)) \<noteq> None"
  proof -
    obtain w1 vo r where ev: "ensure_voice w i raises = (w1, vo, r)"
      by (cases "ensure_voice w i raises")
    with that obtain vc where "ensure_voice w i raises = (w1, Some vc, r)"
      by auto
    from play_entry [OF this] that show ?thesis
      by simp
  qed
  show ?thesis
    using a b q s1 s2 p play_next_entry [of w g] by simp
qed

theorem lookup_inserts_state_witness:
  "guild_states world0 1 = None \<and> voice_clients world0 1 = None
   \<and> guild_states (fst (get_guild_state world0 1)) 1 = Some GuildState
   \<and> queue_command world0 1 = (set_state world0 1 GuildState, Replied QueueIsEmpty)
   \<and> stop world0 1 = (set_state world0 1 GuildState, Replied NotConnectedReply)
   \<and> guild_states (fst (stop world0 1)) 1 = Some GuildState
   \<and> i_guild user1 = 1 \<and> fst (snd (ensure_voice world0 user1 False)) \<noteq> None
   \<and> guild_states (fst (play demo_ytdl world0 user1 ''broken'' False)) 1 \<noteq> None"
proof -
  have m: "guild_states world0 1 = None" and v: "voice_clients world0 1 = None"
    by (simp_all add: world0_def)
  have g: "i_guild user1 = 1"
    by (simp add: user1_def)
  have e: "fst (snd (ensure_voice world0 user1 False)) \<noteq> None"
    by (simp add: ensure_voice_def user1_def world0_def connect_def Let_def)
  show ?thesis
    using m v g e lookup_inserts_state [OF m, of user1 False demo_ytdl "''broken''"]
    by blast
qed


section \<open>Enqueue around the end of the last track\<close>

text \<open>
  When the end of the player and its scheduled \<^verbatim>\<open>play_next\<close> run with nothing in between,
  an enqueue of X and the completion of the last track A follow one another, and in both
  orders X ends as the current track, held by the voice client, with an empty queue.
\<close>

lemma enqueue_then_completion:
  "current (fst (completion (fst (enqueue world_last 1 busy_vc trackX)) 1 None)) 1 = Some trackX
   \<and> pending (fst (completion (fst (enqueue world_last 1 busy_vc trackX)) 1 None)) 1 = []
   \<and> sink_source (fst (completion (fst (enqueue world_last 1 busy_vc trackX)) 1 None)) 1
       = Some trackX"
  by (simp add: completion_def player_ends_def after_playing_def enqueue_def play_next_def
        get_guild_state_def
        set_state_def vc_play_def vc_stop_def is_playing_def is_paused_def
        pending_def current_def session_def sink_source_def
        world_last_def world0_def busy_vc_def idle_vc_def GuildState_def Let_def)

lemma completion_then_enqueue:
  "current (fst (enqueue (fst (completion world_last 1 None)) 1 (vc_stop busy_vc) trackX)) 1
     = Some trackX
   \<and> pending (fst (enqueue (fst (completion world_last 1 None)) 1 (vc_stop busy_vc) trackX)) 1
       = []
   \<and> sink_source (fst (enqueue (fst (completion world_last 1 None)) 1 (vc_stop busy_vc) trackX)) 1
       = Some trackX"
  by (simp add: completion_def player_ends_def after_playing_def enqueue_def play_next_def
        get_guild_state_def
        set_state_def vc_play_def vc_stop_def is_playing_def is_paused_def
        pending_def current_def session_def sink_source_def live_def cancel_def create_task_def
        world_last_def world0_def busy_vc_def idle_vc_def GuildState_def Let_def)

text \<open>
  Claim C4 says that an enqueue of X racing with the completion of the last track A always
  ends with X current and an empty queue. The code does not keep that when the enqueue
  comes between the end of the player and the \<^verbatim>\<open>play_next\<close> that \<^verbatim>\<open>after_playing\<close>
  scheduled. Guild 1 plays A with an empty queue. The player ends, so \<^verbatim>\<open>is_playing()\<close> is
  false. \<^verbatim>\<open>play\<close> puts X on the queue, finds the voice client idle and calls \<^verbatim>\<open>play_next\<close>
  itself (lines 226-229): X becomes current and is handed to the voice client. Then the
  scheduled \<^verbatim>\<open>play_next\<close> runs, finds the queue empty, resets \<open>current_track\<close> and arms the
  inactivity timer (lines 144-152). At the end X is playing, the session has no current
  track, a timer is live, and the \<^verbatim>\<open>queue\<close> command answers that the queue is empty.
\<close>

theorem enqueue_between_end_and_play_next:
  "current world_last 1 = Some trackA \<and> pending world_last 1 = []
   \<and> sink_source world_last 1 = Some trackA
   \<and> current (fst (run world_last 1 [Ended, Enqueue trackX])) 1 = Some trackX
   \<and> sink_source (fst (run world_last 1 [Ended, Enqueue trackX])) 1 = Some trackX
   \<and> snd (run world_last 1 [Ended, Enqueue trackX, Advance None]) = [trackX]
   \<and> current (fst (run world_last 1 [Ended, Enqueue trackX, Advance None])) 1 = None
   \<and> pending (fst (run world_last 1 [Ended, Enqueue trackX, Advance None])) 1 = []
   \<and> sink_source (fst (run world_last 1 [Ended, Enqueue trackX, Advance None])) 1 = Some trackX
   \<and> \<not> sink_idle (fst (run world_last 1 [Ended, Enqueue trackX, Advance None])) 1
   \<and> timer_live (fst (run world_last 1 [Ended, Enqueue trackX, Advance None])) 1
   \<and> snd (queue_command (fst (run world_last 1 [Ended, Enqueue trackX, Advance None])) 1)
       = Replied QueueIsEmpty"
  by (simp add: step_def enqueue_def after_playing_def player_ends_def play_next_def
        queue_command_def get_guild_state_def set_state_def vc_play_def vc_stop_def
        is_playing_def is_paused_def create_task_def live_def
        pending_def current_def session_def sink_source_def sink_idle_def timer_live_def
        world_last_def world0_def busy_vc_def idle_vc_def GuildState_def Let_def)

end
